theory Spec2Isabelle
  imports Main "HOL-Library.Word" "HOL-Library.AList"
begin

section \<open>Slow query statistics and their merge\<close>

text \<open>
  The Go sources embedded here are the slow query syncer (package \<open>slowquerysync\<close>) and
  the task DAG store (\<open>backend/store/task_dag.go\<close>).

  An instant of time is modelled by the number of nanoseconds since Go's zero time, as an
  unbounded integer: \<open>IsZero\<close> is equality with 0, \<open>Before\<close> and \<open>After\<close> are
  \<open><\<close> and \<open>>\<close>. A \<open>time.Time\<close> that the code has brought to UTC is modelled by its
  instant; the one that it has not, the latest log date of the store, carries its
  location (see the syncer). A \<open>time.Duration\<close> is a signed 64-bit count of nanoseconds whose
  arithmetic wraps around. A \<open>durationpb.Duration\<close> is read by the code only through
  \<open>AsDuration\<close> and written only through \<open>durationpb.New\<close>, and
  \<open>AsDuration (New d) = d\<close>, so it is modelled by its \<open>AsDuration\<close> value; a
  \<open>timestamppb.Timestamp\<close> likewise by its \<open>AsTime\<close> value. Pointers to messages are
  taken to be non-nil.
\<close>

type_synonym time = int
type_synonym duration = "64 word"

text \<open>
  Modelled from the spec: the protobuf-generated message types are not among the sources;
  the spec's data model gives \<open>count\<close> and \<open>totalRowsSent\<close> as unsigned 64-bit
  integers. The conversion \<open>time.Duration(count)\<close> then keeps the 64 bits as they are.
\<close>

record SlowQueryStatisticsItem =
  SqlFingerprint :: string
  Count :: "64 word"
  LatestLogTime :: time
  TotalQueryTime :: duration
  MaximumQueryTime :: duration
  TotalRowsSent :: "64 word"

record SlowQueryStatistics =
  Items :: "SlowQueryStatisticsItem list"

text \<open>\<open>v1pb.SlowQueryStatistics\<close>, the statistics of a persisted record as the store
  returns it: averages instead of totals.\<close>

record SlowQueryStatistics_v1 =
  SqlFingerprint_v1 :: string
  Count_v1 :: "64 word"
  LatestLogTime_v1 :: time
  AverageQueryTime :: duration
  MaximumQueryTime_v1 :: duration
  AverageRowsSent :: "64 word"

record SlowQueryLog =
  Statistics :: SlowQueryStatistics_v1

text \<open>
  The Go map \<open>status\<close> from fingerprint to item is an association list with one entry
  per key. Go iterates a map in an unspecified order; the model lists the entries in the
  order in which their keys were first stored, and every statement below reads the
  result by fingerprint only.
\<close>

type_synonym status_map = "(string \<times> SlowQueryStatisticsItem) list"

fun seed_status :: "SlowQueryStatisticsItem list \<Rightarrow> status_map \<Rightarrow> status_map" where
  "seed_status [] status = status"
| "seed_status (item # items) status =
     seed_status items (AList.update (SqlFingerprint item) item status)"

text \<open>The item stored for a fingerprint that the map does not hold yet.\<close>

definition new_item :: "SlowQueryStatistics_v1 \<Rightarrow> SlowQueryStatisticsItem" where
  "new_item st =
     \<lparr> SqlFingerprint = SqlFingerprint_v1 st,
       Count = Count_v1 st,
       LatestLogTime = LatestLogTime_v1 st,
       TotalQueryTime = AverageQueryTime st * Count_v1 st,
       MaximumQueryTime = MaximumQueryTime_v1 st,
       TotalRowsSent = AverageRowsSent st * Count_v1 st \<rparr>"

text \<open>The in-place update of the item found for the fingerprint (the \<open>else\<close> branch).\<close>

definition accumulate ::
  "SlowQueryStatisticsItem \<Rightarrow> SlowQueryStatistics_v1 \<Rightarrow> SlowQueryStatisticsItem" where
  "accumulate v st =
     (let v1 = v\<lparr>Count := Count v + Count_v1 st\<rparr>;
          totalQueryTime = AverageQueryTime st * Count_v1 st;
          v2 = v1\<lparr>TotalQueryTime := TotalQueryTime v1 + totalQueryTime\<rparr>;
          v3 = (if MaximumQueryTime v2 <s MaximumQueryTime_v1 st
                then v2\<lparr>MaximumQueryTime := MaximumQueryTime_v1 st\<rparr> else v2)
      in v3\<lparr>TotalRowsSent := TotalRowsSent v3 + AverageRowsSent st * Count_v1 st\<rparr>)"

fun merge_logs :: "SlowQueryLog list \<Rightarrow> status_map \<Rightarrow> status_map" where
  "merge_logs [] status = status"
| "merge_logs (log # logs) status =
     (case map_of status (SqlFingerprint_v1 (Statistics log)) of
        None \<Rightarrow>
          merge_logs logs
            (AList.update (SqlFingerprint_v1 (Statistics log)) (new_item (Statistics log)) status)
      | Some v \<Rightarrow>
          merge_logs logs
            (AList.update (SqlFingerprint_v1 (Statistics log)) (accumulate v (Statistics log))
               status))"

definition pgMergeSlowQueryLog ::
  "SlowQueryStatistics \<Rightarrow> SlowQueryLog list \<Rightarrow> SlowQueryStatistics" where
  "pgMergeSlowQueryLog statistics logs =
     \<lparr> Items = map snd (merge_logs logs (seed_status (Items statistics) [])) \<rparr>"

subsection \<open>Reading statistics by fingerprint\<close>

text \<open>The item a statistics value holds for a fingerprint. Where several items of the
  input carry the same fingerprint, the Go map keeps the one stored last.\<close>

definition item_for :: "string \<Rightarrow> SlowQueryStatistics \<Rightarrow> SlowQueryStatisticsItem option" where
  "item_for f statistics = find (\<lambda>i. SqlFingerprint i = f) (rev (Items statistics))"

text \<open>The persisted records of a fingerprint, in the order of the list.\<close>

definition records_for :: "string \<Rightarrow> SlowQueryLog list \<Rightarrow> SlowQueryStatistics_v1 list" where
  "records_for f logs = filter (\<lambda>st. SqlFingerprint_v1 st = f) (map Statistics logs)"

text \<open>The larger of two durations as signed numbers, the way the code selects it.\<close>

definition smax :: "duration \<Rightarrow> duration \<Rightarrow> duration" where
  "smax a b = (if a <s b then b else a)"

text \<open>The item after the records of a list have been accumulated into it, one by one.\<close>

fun accumulate_all :: "SlowQueryStatisticsItem \<Rightarrow> SlowQueryStatistics_v1 list \<Rightarrow> SlowQueryStatisticsItem" where
  "accumulate_all v [] = v"
| "accumulate_all v (st # sts) = accumulate_all (accumulate v st) sts"

text \<open>Every entry of the map is stored under its own fingerprint.\<close>

definition keyed :: "status_map \<Rightarrow> bool" where
  "keyed al = list_all (\<lambda>(k, v). SqlFingerprint v = k) al"

subsection \<open>Persisted records of stored statistics\<close>

text \<open>
  Modelled from the spec: the store's conversion of a stored item into the persisted
  record that it returns is not among the sources. By the spec, a persisted record
  carries average-based fields from which the merge reconstructs the totals
  (\<open>totalQueryTime = averageQueryTime * count\<close>,
  \<open>totalRowsSent = averageRowsSent * count\<close>), and the stored average is a lossy
  aggregate. The record of an item keeps the fingerprint, the count, the latest log time
  and the maximum; its averages are the totals divided by the count as integers: the
  query time in nanoseconds as a signed quotient rounded toward zero (as Go divides), the
  rows sent as an unsigned quotient. The quotient by a count of 0 is taken as 0.
\<close>

definition quot :: "int \<Rightarrow> int \<Rightarrow> int" where
  "quot a b = sgn a * sgn b * (\<bar>a\<bar> div \<bar>b\<bar>)"

definition persisted :: "SlowQueryStatisticsItem \<Rightarrow> SlowQueryStatistics_v1" where
  "persisted item =
     \<lparr> SqlFingerprint_v1 = SqlFingerprint item,
       Count_v1 = Count item,
       LatestLogTime_v1 = LatestLogTime item,
       AverageQueryTime = word_of_int (quot (sint (TotalQueryTime item)) (uint (Count item))),
       MaximumQueryTime_v1 = MaximumQueryTime item,
       AverageRowsSent = TotalRowsSent item div Count item \<rparr>"

definition persisted_logs :: "SlowQueryStatistics \<Rightarrow> SlowQueryLog list" where
  "persisted_logs statistics =
     map (\<lambda>item. \<lparr> Statistics = persisted item \<rparr>) (Items statistics)"

text \<open>The count and the total query time that a statistics value holds for a
  fingerprint (0 when it has no item for it), and the total that the merge reconstructs
  from the persisted record of that item.\<close>

definition count_of :: "string \<Rightarrow> SlowQueryStatistics \<Rightarrow> 64 word" where
  "count_of f statistics =
     (case item_for f statistics of None \<Rightarrow> 0 | Some item \<Rightarrow> Count item)"

definition total_of :: "string \<Rightarrow> SlowQueryStatistics \<Rightarrow> duration" where
  "total_of f statistics =
     (case item_for f statistics of None \<Rightarrow> 0 | Some item \<Rightarrow> TotalQueryTime item)"

definition reconstructed_of :: "string \<Rightarrow> SlowQueryStatistics \<Rightarrow> duration" where
  "reconstructed_of f statistics =
     (case item_for f statistics of
        None \<Rightarrow> 0
      | Some item \<Rightarrow> AverageQueryTime (persisted item) * Count_v1 (persisted item))"

text \<open>An item whose stored average loses nothing: the average times the count is the
  total.\<close>

definition exact_average :: "SlowQueryStatisticsItem \<Rightarrow> bool" where
  "exact_average item = (AverageQueryTime (persisted item) * Count item = TotalQueryTime item)"

text \<open>Statistics with a single item, of the fingerprint \<open>q\<close>.\<close>

definition one_item :: "64 word \<Rightarrow> duration \<Rightarrow> SlowQueryStatistics" where
  "one_item n queryTime =
     \<lparr> Items = [\<lparr> SqlFingerprint = ''q'', Count = n, LatestLogTime = 0,
                  TotalQueryTime = queryTime, MaximumQueryTime = queryTime,
                  TotalRowsSent = 0 \<rparr>] \<rparr>"

section \<open>The task DAG store\<close>

text \<open>
  An error value is either the failure of a collaborator (the database, the store, a
  driver), such a failure wrapped with a message by \<open>errors.Wrapf\<close>, or an error the
  code makes itself with \<open>errors.Errorf\<close>.
\<close>

datatype error = Failure string | Wrapf error string | Errorf string

record TaskDAGMessage =
  FromTaskID :: int
  ToTaskID :: int

record TaskDAGFind =
  StageID :: "int option"
  PipelineID :: "int option"

text \<open>
  The SQL database is outside the repository. Its two tables that the queries touch are
  lists of rows (no constraint is assumed, so a table may hold a row twice): \<open>task_dag\<close>
  with the columns \<open>from_task_id\<close> and \<open>to_task_id\<close>, and \<open>task\<close> with the
  columns \<open>id\<close>, \<open>pipeline_id\<close> and \<open>stage_id\<close>.
\<close>

record task_row =
  task_id :: int
  task_pipeline_id :: int
  task_stage_id :: int

record database =
  task_dag :: "TaskDAGMessage list"
  task :: "task_row list"

text \<open>
  Every call on the database can fail. The steps of the two functions are named, and a
  run is given the error, if any, with which each step fails. A transaction works on a
  copy of the tables; \<open>Commit\<close> stores the copy, and the deferred \<open>Rollback\<close> of a
  transaction that did not commit leaves the stored tables as they were.
\<close>

datatype db_step = BeginTx | ExecDelete | ExecInsert | Commit | Query | Scan | RowsErr

type_synonym faults = "db_step \<Rightarrow> error option"

definition no_faults :: faults where
  "no_faults = (\<lambda>step. None)"

text \<open>\<open>DELETE FROM task_dag WHERE to_task_id = $1\<close>\<close>

definition delete_to_task :: "int \<Rightarrow> TaskDAGMessage list \<Rightarrow> TaskDAGMessage list" where
  "delete_to_task toTaskID rows = filter (\<lambda>r. ToTaskID r \<noteq> toTaskID) rows"

text \<open>\<open>INSERT INTO task_dag (from_task_id, to_task_id) SELECT unnest(CAST($1 AS INTEGER[])), $2\<close>\<close>

definition insert_unnest :: "int list \<Rightarrow> int \<Rightarrow> TaskDAGMessage list \<Rightarrow> TaskDAGMessage list" where
  "insert_unnest fromTaskIDs toTaskID rows =
     rows @ map (\<lambda>f. \<lparr> FromTaskID = f, ToTaskID = toTaskID \<rparr>) fromTaskIDs"

text \<open>The result is the returned error (\<open>None\<close> for \<open>nil\<close>) and the stored tables after
  the call.\<close>

definition RebuildTaskDAG ::
  "faults \<Rightarrow> int list \<Rightarrow> int \<Rightarrow> database \<Rightarrow> error option \<times> database" where
  "RebuildTaskDAG fails fromTaskIDs toTaskID db =
     (case fails BeginTx of
        Some err \<Rightarrow> (Some err, db)
      | None \<Rightarrow>
          (case fails ExecDelete of
             Some err \<Rightarrow> (Some (Wrapf err ''failed to delete old task dags''), db)
           | None \<Rightarrow>
               (let tx1 = delete_to_task toTaskID (task_dag db) in
                case fails ExecInsert of
                  Some err \<Rightarrow> (Some err, db)
                | None \<Rightarrow>
                    (let tx2 = insert_unnest fromTaskIDs toTaskID tx1 in
                     case fails Commit of
                       Some err \<Rightarrow> (Some err, db)
                     | None \<Rightarrow> (None, db\<lparr>task_dag := tx2\<rparr>)))))"

text \<open>The conjunction that \<open>ListTaskDags\<close> joins with \<open>AND\<close>: \<open>TRUE\<close>, then
  \<open>task.stage_id = $n\<close> and \<open>task.pipeline_id = $n\<close> for the identifiers that the
  filter carries.\<close>

definition where_clause :: "TaskDAGFind \<Rightarrow> task_row \<Rightarrow> bool" where
  "where_clause find' t =
     (True \<and>
      (case StageID find' of None \<Rightarrow> True | Some v \<Rightarrow> task_stage_id t = v) \<and>
      (case PipelineID find' of None \<Rightarrow> True | Some v \<Rightarrow> task_pipeline_id t = v))"

text \<open>The rows of the query: with a stage or a pipeline identifier the table
  \<open>task_dag\<close> is joined with \<open>task\<close> on \<open>task.id = task_dag.from_task_id\<close>.\<close>

definition select_task_dags :: "TaskDAGFind \<Rightarrow> database \<Rightarrow> TaskDAGMessage list" where
  "select_task_dags find' db =
     (if StageID find' \<noteq> None \<or> PipelineID find' \<noteq> None
      then concat (map (\<lambda>d. map (\<lambda>t. d)
             (filter (\<lambda>t. task_id t = FromTaskID d \<and> where_clause find' t) (task db)))
             (task_dag db))
      else filter (\<lambda>d. True) (task_dag db))"

definition ListTaskDags ::
  "faults \<Rightarrow> TaskDAGFind \<Rightarrow> database \<Rightarrow> error + TaskDAGMessage list" where
  "ListTaskDags fails find' db =
     (case fails BeginTx of
        Some err \<Rightarrow> Inl err
      | None \<Rightarrow>
          (case fails Query of
             Some err \<Rightarrow> Inl err
           | None \<Rightarrow>
               (let rows = select_task_dags find' db in
                case (if rows = [] then None else fails Scan) of
                  Some err \<Rightarrow> Inl err
                | None \<Rightarrow>
                    (case fails RowsErr of
                       Some err \<Rightarrow> Inl err
                     | None \<Rightarrow>
                         (case fails Commit of
                            Some err \<Rightarrow> Inl err
                          | None \<Rightarrow> Inr rows)))))"

subsection \<open>Reading the edges\<close>

text \<open>The stored edges into a task, and a task's membership in the stage and pipeline
  of a filter.\<close>

definition edges_into :: "int \<Rightarrow> database \<Rightarrow> TaskDAGMessage list" where
  "edges_into toTaskID db = filter (\<lambda>r. ToTaskID r = toTaskID) (task_dag db)"

definition belongs :: "TaskDAGFind \<Rightarrow> database \<Rightarrow> int \<Rightarrow> bool" where
  "belongs find' db i = list_ex (\<lambda>t. task_id t = i \<and> where_clause find' t) (task db)"

text \<open>A sequence of calls of \<open>RebuildTaskDAG\<close>, each with its faults: the errors
  returned, in order, and the stored tables at the end.\<close>

fun rebuild_calls ::
  "(faults \<times> int list \<times> int) list \<Rightarrow> database \<Rightarrow> error option list \<times> database" where
  "rebuild_calls [] db = ([], db)"
| "rebuild_calls ((fails, fromTaskIDs, toTaskID) # calls) db =
     (case RebuildTaskDAG fails fromTaskIDs toTaskID db of
        (err, db') \<Rightarrow> (case rebuild_calls calls db' of (errs, db'') \<Rightarrow> (err # errs, db'')))"

text \<open>The invariant that the comment in \<open>ListTaskDags\<close> states: the from-task and the
  to-task of every edge are rows of \<open>task\<close> in the same pipeline and the same stage.\<close>

definition same_stage_edges :: "database \<Rightarrow> bool" where
  "same_stage_edges db =
     list_all (\<lambda>d.
        list_ex (\<lambda>b. task_id b = ToTaskID d) (task db) \<and>
        list_all (\<lambda>a. list_all (\<lambda>b.
            task_id a \<noteq> FromTaskID d \<or> task_id b \<noteq> ToTaskID d \<or>
            (task_stage_id a = task_stage_id b \<and> task_pipeline_id a = task_pipeline_id b))
          (task db)) (task db))
       (task_dag db)"

text \<open>The edges both of whose endpoints belong to the stage and pipeline of the filter.\<close>

definition both_endpoints :: "TaskDAGFind \<Rightarrow> database \<Rightarrow> TaskDAGMessage list" where
  "both_endpoints find' db =
     filter (\<lambda>d. belongs find' db (FromTaskID d) \<and> belongs find' db (ToTaskID d)) (task_dag db)"

definition cross_stage_db :: database where
  "cross_stage_db =
     \<lparr> task_dag = [\<lparr> FromTaskID = 1, ToTaskID = 2 \<rparr>],
       task = [\<lparr> task_id = 1, task_pipeline_id = 100, task_stage_id = 10 \<rparr>,
               \<lparr> task_id = 2, task_pipeline_id = 100, task_stage_id = 20 \<rparr>] \<rparr>"

definition stage_db :: database where
  "stage_db =
     \<lparr> task_dag = [\<lparr> FromTaskID = 1, ToTaskID = 2 \<rparr>, \<lparr> FromTaskID = 3, ToTaskID = 4 \<rparr>],
       task = [\<lparr> task_id = 1, task_pipeline_id = 100, task_stage_id = 10 \<rparr>,
               \<lparr> task_id = 2, task_pipeline_id = 100, task_stage_id = 10 \<rparr>,
               \<lparr> task_id = 3, task_pipeline_id = 100, task_stage_id = 20 \<rparr>,
               \<lparr> task_id = 4, task_pipeline_id = 100, task_stage_id = 20 \<rparr>] \<rparr>"

text \<open>Stored tables for the examples.\<close>

definition example_db :: database where
  "example_db = \<lparr> task_dag = [\<lparr> FromTaskID = 4, ToTaskID = 5 \<rparr>, \<lparr> FromTaskID = 1, ToTaskID = 2 \<rparr>],
       task = [] \<rparr>"

section \<open>The slow query syncer\<close>

subsection \<open>Time\<close>

text \<open>
  A value of type \<open>time\<close> is a UTC time: the clock after \<open>.UTC()\<close>, the times of
  protobuf timestamps (\<open>AsTime\<close> returns UTC) and the dates computed from them.
  \<open>Truncate\<close> rounds down to a multiple of the duration since the zero time, so
  truncation to 24 hours gives midnight UTC. \<open>AddDate 0 0 n\<close> on a UTC time adds \<open>n\<close>
  days of 24 hours.
\<close>

definition Hour :: int where
  "Hour = 3600000000000"

definition Truncate :: "int \<Rightarrow> time \<Rightarrow> time" where
  "Truncate d t = (if d \<le> 0 then t else t - t mod d)"

definition AddDate :: "int \<Rightarrow> int \<Rightarrow> int \<Rightarrow> time \<Rightarrow> time" where
  "AddDate years months days t = t + days * (24 * Hour)"

definition IsZero :: "time \<Rightarrow> bool" where
  "IsZero t = (t = 0)"

definition retentionCycle :: int where
  "retentionCycle = 30"

text \<open>
  The date that the store returns is a \<open>time.Time\<close> that the routine never converts to
  UTC, so it carries its \<open>Location\<close>. A location is modelled by its offset from UTC (in
  nanoseconds) at every instant; \<open>UTC\<close> has the offset 0 throughout.

  On such a time, \<open>Truncate\<close> works on the instant and keeps the location.
  \<open>AddDate(0, 0, n)\<close> is calendar arithmetic: Go reads the wall clock of the time in
  its location, adds \<open>n\<close> days to the date, and \<open>Date\<close> turns the wall clock back into
  an instant by subtracting the offset that the location has there (the offset found for
  the wall clock read as an instant, corrected by a second lookup when that lands in
  another period of the zone, which comes to the offset at the wall clock minus the
  offset found first). \<open>Before\<close> and \<open>After\<close> compare instants.
\<close>

type_synonym Location = "int \<Rightarrow> int"

definition UTC :: Location where
  "UTC = (\<lambda>t. 0)"

record Time =
  instant :: time
  loc :: Location

definition TruncateIn :: "int \<Rightarrow> Time \<Rightarrow> Time" where
  "TruncateIn d t = t\<lparr>instant := Truncate d (instant t)\<rparr>"

definition AddDateIn :: "int \<Rightarrow> int \<Rightarrow> int \<Rightarrow> Time \<Rightarrow> Time" where
  "AddDateIn years months days t =
     (let wall = instant t + loc t (instant t) + days * (24 * Hour);
          offset = loc t wall;
          offset' = loc t (wall - offset)
      in t\<lparr>instant := wall - offset'\<rparr>)"

subsection \<open>Messages, the store and the drivers\<close>

text \<open>The engines, with the values of the enumeration \<open>Engine\<close> of the proto sources, and
  the sync status of a database.\<close>

datatype Engine =
    ENGINE_UNSPECIFIED | CLICKHOUSE | MYSQL | POSTGRES | SNOWFLAKE | SQLITE | TIDB | MONGODB
  | REDIS | ORACLE | SPANNER | MSSQL | REDSHIFT | MARIADB | OCEANBASE | DM | RISINGWAVE
  | OCEANBASE_ORACLE | STARROCKS | DORIS | HIVE | ELASTICSEARCH | BIGQUERY | DYNAMODB
  | DATABRICKS | COCKROACHDB | COSMOSDB

datatype SyncStatus = OK | NotFound

record InstanceMessage =
  ResourceID :: string
  Engine :: Engine
  Deleted :: bool

record DatabaseMessage =
  InstanceID :: string
  DatabaseName :: string
  SyncState :: SyncStatus

record SlowQueryPolicy =
  Active :: bool

record UpsertSlowLogMessage =
  UpsertInstanceID :: string
  UpsertDatabaseName :: string
  LogDate :: time
  SlowLog :: SlowQueryStatistics

record ListSlowQueryMessage =
  ListInstanceID :: string
  ListDatabaseName :: string
  StartLogDate :: time
  EndLogDate :: time

text \<open>
  The persisted slow query logs: one statistics value for an instance, a database name
  and a log date.
\<close>

type_synonym slow_logs = "string \<times> string \<times> time \<Rightarrow> SlowQueryStatistics option"

text \<open>
  The calls that the syncer makes on an engine to fetch logs and on the store to write,
  in the order in which it makes them; a call is recorded whether it fails or not.
\<close>

datatype event =
    Delete string time
  | Fetch string time
  | Upsert UpsertSlowLogMessage

record state =
  slow_query :: slow_logs
  history :: "event list"

text \<open>
  A driver of an engine. The map from database name to statistics that
  \<open>SyncSlowQuery\<close> returns is the list of its entries, in the order in which a
  \<open>range\<close> loop of the run visits them. The date that it is given is identified by
  its instant: within a run all dates given to a driver carry the same location.
\<close>

record Driver =
  CheckSlowQueryLogEnabled :: "error option"
  SyncSlowQuery :: "time \<Rightarrow> error + (string \<times> SlowQueryStatistics) list"

text \<open>
  The collaborators of the syncer that are not among the sources are parameters of a
  run: the clock, the reads of the store, the error with which a write of the store
  fails (if it does), the driver factory and the parser's test for system databases.
  A collaborator answers the same call in the same way throughout a run.
\<close>

record env =
  Now :: time
  GetSlowQueryPolicy :: "string \<Rightarrow> error + SlowQueryPolicy option"
  ListDatabases :: "string \<Rightarrow> error + DatabaseMessage list"
  GetLatestSlowLogDate :: "slow_logs \<Rightarrow> string \<Rightarrow> error + Time option"
  ListSlowQueryFault :: "ListSlowQueryMessage \<Rightarrow> error option"
  ListSlowQueryRows :: "slow_logs \<Rightarrow> ListSlowQueryMessage \<Rightarrow> SlowQueryLog list"
  DeleteOutdatedSlowLogFault :: "string \<Rightarrow> time \<Rightarrow> error option"
  UpsertSlowLogFault :: "UpsertSlowLogMessage \<Rightarrow> error option"
  GetAdminDatabaseDriver :: "InstanceMessage \<Rightarrow> DatabaseMessage option \<Rightarrow> error + Driver"
  IsSystemDatabase :: "string \<Rightarrow> bool"

text \<open>
  Modelled from the spec: the store's \<open>DeleteOutdatedSlowLog\<close>, \<open>UpsertSlowLog\<close> and
  \<open>ListSlowQuery\<close> are not among the sources. By the spec, \<open>deleteRecordsOlderThan\<close>
  removes the records of the instance whose log date is before the cutoff,
  \<open>upsertRecord\<close> creates or overwrites the record keyed by instance, database and
  date, and a store operation that fails changes nothing.
\<close>

definition DeleteOutdatedSlowLog ::
  "env \<Rightarrow> string \<Rightarrow> time \<Rightarrow> state \<Rightarrow> error option \<times> state" where
  "DeleteOutdatedSlowLog e instanceID earliestDate st =
     (let st' = st\<lparr>history := history st @ [Delete instanceID earliestDate]\<rparr> in
      case DeleteOutdatedSlowLogFault e instanceID earliestDate of
        Some err \<Rightarrow> (Some err, st')
      | None \<Rightarrow>
          (None, st'\<lparr>slow_query :=
             (\<lambda>(i, d, t). if i = instanceID \<and> t < earliestDate then None
                           else slow_query st' (i, d, t))\<rparr>))"

definition UpsertSlowLog ::
  "env \<Rightarrow> UpsertSlowLogMessage \<Rightarrow> state \<Rightarrow> error option \<times> state" where
  "UpsertSlowLog e upsert st =
     (let st' = st\<lparr>history := history st @ [Upsert upsert]\<rparr> in
      case UpsertSlowLogFault e upsert of
        Some err \<Rightarrow> (Some err, st')
      | None \<Rightarrow>
          (None, st'\<lparr>slow_query :=
             (slow_query st')((UpsertInstanceID upsert, UpsertDatabaseName upsert, LogDate upsert)
                \<mapsto> SlowLog upsert)\<rparr>))"

definition ListSlowQuery ::
  "env \<Rightarrow> ListSlowQueryMessage \<Rightarrow> state \<Rightarrow> error + SlowQueryLog list" where
  "ListSlowQuery e list st =
     (case ListSlowQueryFault e list of
        Some err \<Rightarrow> Inl err
      | None \<Rightarrow> Inr (ListSlowQueryRows e (slow_query st) list))"

text \<open>A call of \<open>driver.SyncSlowQuery\<close>, recorded in the history.\<close>

definition fetch ::
  "Driver \<Rightarrow> string \<Rightarrow> time \<Rightarrow> state \<Rightarrow>
     (error + (string \<times> SlowQueryStatistics) list) \<times> state" where
  "fetch driver instanceID date st =
     (SyncSlowQuery driver date, st\<lparr>history := history st @ [Fetch instanceID date]\<rparr>)"

subsection \<open>The MySQL routine\<close>

text \<open>The \<open>range\<close> loop over the logs of one day: the first failing upsert returns its
  error.\<close>

fun upsert_all ::
  "env \<Rightarrow> InstanceMessage \<Rightarrow> time \<Rightarrow> (string \<times> SlowQueryStatistics) list \<Rightarrow> state \<Rightarrow>
     error option \<times> state" where
  "upsert_all e instance date [] st = (None, st)"
| "upsert_all e instance date ((dbName, slowLog) # logs) st =
     (case UpsertSlowLog e
             \<lparr> UpsertInstanceID = ResourceID instance, UpsertDatabaseName = dbName,
               LogDate = date, SlowLog = slowLog \<rparr> st of
        (Some err, st') \<Rightarrow> (Some err, st')
      | (None, st') \<Rightarrow> upsert_all e instance date logs st')"

text \<open>
  The loop \<open>for date := ...; !date.After(today); date = date.AddDate(0, 0, 1)\<close>. The
  date carries the location of the store's date, in which a step need not move forward
  in time, so the loop is a partial function: \<open>None\<close> stands for a loop that never
  ends.
\<close>

partial_function (option) mysql_days ::
  "env \<Rightarrow> Driver \<Rightarrow> InstanceMessage \<Rightarrow> time \<Rightarrow> Time \<Rightarrow> state \<Rightarrow>
     (error option \<times> state) option" where
  "mysql_days e driver instance today date st =
     (if instant date > today then Some (None, st)
      else
        (case fetch driver (ResourceID instance) (instant date) st of
           (Inl err, st') \<Rightarrow> Some (Some err, st')
         | (Inr logs, st') \<Rightarrow>
             (case upsert_all e instance (instant date) logs st' of
                (Some err, st'') \<Rightarrow> Some (Some err, st'')
              | (None, st'') \<Rightarrow>
                  mysql_days e driver instance today (AddDateIn 0 0 1 date) st'')))"

text \<open>The date from which the loop starts, before its truncation to the day: the
  latest log date of the store, or the earliest date of the retention (a UTC time) when
  there is none or when it is older than that.\<close>

definition resumeDate :: "time \<Rightarrow> time \<Rightarrow> Time option \<Rightarrow> Time" where
  "resumeDate today earliestDate latestSlowLogDate =
     (case latestSlowLogDate of
        None \<Rightarrow> \<lparr> instant = earliestDate, loc = UTC \<rparr>
      | Some latest \<Rightarrow>
          if instant (AddDateIn 0 0 retentionCycle latest) < today
          then \<lparr> instant = earliestDate, loc = UTC \<rparr> else latest)"

definition syncMySQLSlowQuery ::
  "env \<Rightarrow> InstanceMessage \<Rightarrow> state \<Rightarrow> (error option \<times> state) option" where
  "syncMySQLSlowQuery e instance st =
     (let today = Truncate (24 * Hour) (Now e);
          earliestDate = AddDate 0 0 (- retentionCycle) today
      in case DeleteOutdatedSlowLog e (ResourceID instance) earliestDate st of
           (Some err, st1) \<Rightarrow> Some (Some err, st1)
         | (None, st1) \<Rightarrow>
             (case GetLatestSlowLogDate e (slow_query st1) (ResourceID instance) of
                Inl err \<Rightarrow> Some (Some err, st1)
              | Inr latest \<Rightarrow>
                  (let latestSlowLogDate = resumeDate today earliestDate latest
                   in case GetAdminDatabaseDriver e instance None of
                        Inl err \<Rightarrow> Some (Some err, st1)
                      | Inr driver \<Rightarrow>
                          (case CheckSlowQueryLogEnabled driver of
                             Some err \<Rightarrow> Some (Some err, st1)
                           | None \<Rightarrow>
                               mysql_days e driver instance today
                                 (TruncateIn (24 * Hour) latestSlowLogDate) st1))))"

subsection \<open>The PostgreSQL routine\<close>

text \<open>The time of the first item that the two nested \<open>range\<close> loops reach, or the zero
  time when there is no item.\<close>

fun getLatestLogTime :: "(string \<times> SlowQueryStatistics) list \<Rightarrow> time" where
  "getLatestLogTime [] = 0"
| "getLatestLogTime ((name, log) # logMap) =
     (case Items log of
        [] \<Rightarrow> getLatestLogTime logMap
      | item # items \<Rightarrow> LatestLogTime item)"

text \<open>The probe of one database: the error of the driver factory or of the check.\<close>

definition check_enabled :: "env \<Rightarrow> InstanceMessage \<Rightarrow> DatabaseMessage \<Rightarrow> error option" where
  "check_enabled e instance database =
     (case GetAdminDatabaseDriver e instance (Some database) of
        Inl err \<Rightarrow> Some err
      | Inr driver \<Rightarrow> CheckSlowQueryLogEnabled driver)"

fun find_enabled ::
  "env \<Rightarrow> InstanceMessage \<Rightarrow> DatabaseMessage list \<Rightarrow> DatabaseMessage option" where
  "find_enabled e instance [] = None"
| "find_enabled e instance (database # databases) =
     (if SyncState database \<noteq> OK then find_enabled e instance databases
      else if IsSystemDatabase e (DatabaseName database) then find_enabled e instance databases
      else
        (case check_enabled e instance database of
           Some err \<Rightarrow> find_enabled e instance databases
         | None \<Rightarrow> Some database))"

text \<open>The statistics that are upserted for a database of the snapshot: the fetched
  ones, merged with the persisted records when the store returned any. A failure to
  list them is logged and leaves \<open>logs\<close> empty.\<close>

definition merged_statistics ::
  "env \<Rightarrow> DatabaseMessage \<Rightarrow> time \<Rightarrow> time \<Rightarrow> SlowQueryStatistics \<Rightarrow> state \<Rightarrow>
     SlowQueryStatistics" where
  "merged_statistics e database latestLogDate nextLogDate statistics st =
     (let logs =
            (case ListSlowQuery e
                    \<lparr> ListInstanceID = InstanceID database,
                      ListDatabaseName = DatabaseName database,
                      StartLogDate = latestLogDate, EndLogDate = nextLogDate \<rparr> st of
               Inl err \<Rightarrow> []
             | Inr logs \<Rightarrow> logs)
      in if length logs \<noteq> 0 then pgMergeSlowQueryLog statistics logs else statistics)"

text \<open>The loop over the databases of the instance; the error of an upsert is logged
  and dropped.\<close>

fun pg_upsert_databases ::
  "env \<Rightarrow> InstanceMessage \<Rightarrow> (string \<times> SlowQueryStatistics) list \<Rightarrow> time \<Rightarrow> time \<Rightarrow>
     DatabaseMessage list \<Rightarrow> state \<Rightarrow> state" where
  "pg_upsert_databases e instance logMap latestLogDate nextLogDate [] st = st"
| "pg_upsert_databases e instance logMap latestLogDate nextLogDate (database # databases) st =
     (case map_of logMap (DatabaseName database) of
        None \<Rightarrow> pg_upsert_databases e instance logMap latestLogDate nextLogDate databases st
      | Some statistics \<Rightarrow>
          (case UpsertSlowLog e
                  \<lparr> UpsertInstanceID = ResourceID instance,
                    UpsertDatabaseName = DatabaseName database,
                    LogDate = latestLogDate,
                    SlowLog = merged_statistics e database latestLogDate nextLogDate
                                statistics st \<rparr> st of
             (err, st') \<Rightarrow>
               pg_upsert_databases e instance logMap latestLogDate nextLogDate databases st'))"

definition syncPostgreSQLSlowQuery ::
  "env \<Rightarrow> InstanceMessage \<Rightarrow> state \<Rightarrow> error option \<times> state" where
  "syncPostgreSQLSlowQuery e instance st =
     (let today = Truncate (24 * Hour) (Now e);
          earliestDate = AddDate 0 0 (- retentionCycle) today
      in case DeleteOutdatedSlowLog e (ResourceID instance) earliestDate st of
           (Some err, st1) \<Rightarrow> (Some err, st1)
         | (None, st1) \<Rightarrow>
             (case ListDatabases e (ResourceID instance) of
                Inl err \<Rightarrow> (Some err, st1)
              | Inr databases \<Rightarrow>
                  (case find_enabled e instance databases of
                     None \<Rightarrow>
                       (Some (Errorf ''no database is available for slow query sync in instance''),
                        st1)
                   | Some enabledDatabase \<Rightarrow>
                       (case GetAdminDatabaseDriver e instance (Some enabledDatabase) of
                          Inl err \<Rightarrow> (Some err, st1)
                        | Inr driver \<Rightarrow>
                            (case fetch driver (ResourceID instance) (Now e) st1 of
                               (Inl err, st2) \<Rightarrow> (Some err, st2)
                             | (Inr logMap, st2) \<Rightarrow>
                                 (let latestLogDate = getLatestLogTime logMap in
                                  if IsZero latestLogDate then (None, st2)
                                  else
                                    (let latestLogDate = Truncate (24 * Hour) latestLogDate;
                                         nextLogDate = AddDate 0 0 1 latestLogDate
                                     in (None,
                                         pg_upsert_databases e instance logMap latestLogDate
                                           nextLogDate databases st2))))))))"

subsection \<open>One instance\<close>

text \<open>The result is \<open>None\<close> when the routine of the engine never returns.\<close>

definition syncInstanceSlowQuery ::
  "env \<Rightarrow> InstanceMessage \<Rightarrow> state \<Rightarrow> (error option \<times> state) option" where
  "syncInstanceSlowQuery e instance st =
     (case GetSlowQueryPolicy e (ResourceID instance) of
        Inl err \<Rightarrow> Some (Some err, st)
      | Inr slowQueryPolicy \<Rightarrow>
          (case slowQueryPolicy of
             None \<Rightarrow> Some (None, st)
           | Some policy \<Rightarrow>
               if \<not> Active policy then Some (None, st)
               else
                 (case Engine instance of
                    MYSQL \<Rightarrow> syncMySQLSlowQuery e instance st
                  | POSTGRES \<Rightarrow> Some (syncPostgreSQLSlowQuery e instance st)
                  | _ \<Rightarrow> Some (Some (Errorf ''unsupported database engine''), st))))"

subsection \<open>Days, events and examples of the MySQL routine\<close>

text \<open>The days from a start through today, one per 24 hours.\<close>

definition day_range :: "time \<Rightarrow> time \<Rightarrow> time list" where
  "day_range start today =
     map (\<lambda>k. start + int k * (24 * Hour)) [0..<nat ((today - start) div (24 * Hour) + 1)]"

text \<open>The calls of one day of the MySQL routine: the fetch, then one upsert for each
  database of the fetched logs.\<close>

definition day_events ::
  "InstanceMessage \<Rightarrow> time \<Rightarrow> (string \<times> SlowQueryStatistics) list \<Rightarrow> event list" where
  "day_events instance date logs =
     Fetch (ResourceID instance) date #
     map (\<lambda>(dbName, slowLog). Upsert
            \<lparr> UpsertInstanceID = ResourceID instance, UpsertDatabaseName = dbName,
              LogDate = date, SlowLog = slowLog \<rparr>) logs"

text \<open>The store after the successful upserts of one day, and of a list of days.\<close>

fun put_logs ::
  "string \<Rightarrow> time \<Rightarrow> (string \<times> SlowQueryStatistics) list \<Rightarrow> slow_logs \<Rightarrow> slow_logs" where
  "put_logs i date [] m = m"
| "put_logs i date ((dbName, slowLog) # logs) m =
     put_logs i date logs (m((i, dbName, date) \<mapsto> slowLog))"

fun put_days ::
  "string \<Rightarrow> (time \<Rightarrow> (string \<times> SlowQueryStatistics) list) \<Rightarrow> time list \<Rightarrow> slow_logs \<Rightarrow>
     slow_logs" where
  "put_days i fetched [] m = m"
| "put_days i fetched (d # ds) m = put_days i fetched ds (put_logs i d (fetched d) m)"

text \<open>The date of a call.\<close>

fun event_date :: "event \<Rightarrow> time" where
  "event_date (Delete i t) = t"
| "event_date (Fetch i t) = t"
| "event_date (Upsert upsert) = LogDate upsert"

text \<open>\<open>today\<close> and \<open>earliestDate\<close> as both routines compute them.\<close>

definition today_of :: "env \<Rightarrow> time" where
  "today_of e = Truncate (24 * Hour) (Now e)"

definition earliest_of :: "env \<Rightarrow> time" where
  "earliest_of e = AddDate 0 0 (- retentionCycle) (today_of e)"

text \<open>The resume point in the words of the spec:
  \<open>max(lastKnownLogDate, today - 30 days)\<close>, the absent date meaning
  \<open>today - 30 days\<close>. The last known log date is a date: the day of the instant that
  the store returns.\<close>

definition spec_resume_point :: "env \<Rightarrow> Time option \<Rightarrow> time" where
  "spec_resume_point e lastKnownLogDate =
     (case lastKnownLogDate of
        None \<Rightarrow> today_of e - 30 * (24 * Hour)
      | Some l \<Rightarrow> max (Truncate (24 * Hour) (instant l)) (today_of e - 30 * (24 * Hour)))"

text \<open>The date of the loop after a number of steps, and the date from which a run
  starts.\<close>

definition loop_date :: "Time \<Rightarrow> nat \<Rightarrow> Time" where
  "loop_date start k = (AddDateIn 0 0 1 ^^ k) start"

definition loop_start :: "env \<Rightarrow> Time option \<Rightarrow> Time" where
  "loop_start e latest =
     TruncateIn (24 * Hour) (resumeDate (today_of e) (earliest_of e) latest)"

text \<open>A location whose offset never changes.\<close>

definition fixed_offset :: "Location \<Rightarrow> bool" where
  "fixed_offset l = (\<forall>s t. l s = l t)"

text \<open>Day \<open>k\<close> at midnight UTC, and the values of the examples.\<close>

definition midnight :: "int \<Rightarrow> time" where
  "midnight k = k * (24 * Hour)"

definition example_statistics :: SlowQueryStatistics where
  "example_statistics =
     \<lparr> Items = [\<lparr> SqlFingerprint = ''select'', Count = 2, LatestLogTime = 0,
                  TotalQueryTime = 10, MaximumQueryTime = 7, TotalRowsSent = 4 \<rparr>] \<rparr>"

definition example_instance :: InstanceMessage where
  "example_instance = \<lparr> ResourceID = ''prod'', Engine = MYSQL, Deleted = False \<rparr>"

definition empty_state :: state where
  "empty_state = \<lparr> slow_query = (\<lambda>k. None), history = [] \<rparr>"

text \<open>A MySQL instance whose latest log date and whose failing day are given; the clock
  shows five hours past midnight of day 100.\<close>

definition mysql_driver :: "time option \<Rightarrow> Driver" where
  "mysql_driver failing =
     \<lparr> CheckSlowQueryLogEnabled = None,
       SyncSlowQuery = (\<lambda>date. if failing = Some date then Inl (Failure ''fetch'')
                               else Inr [(''db'', example_statistics)]) \<rparr>"

definition mysql_env :: "Time option \<Rightarrow> time option \<Rightarrow> env" where
  "mysql_env latest failing =
     \<lparr> Now = midnight 100 + 5 * Hour,
       GetSlowQueryPolicy = (\<lambda>i. Inr (Some \<lparr> Active = True \<rparr>)),
       ListDatabases = (\<lambda>i. Inr []),
       GetLatestSlowLogDate = (\<lambda>m i. Inr latest),
       ListSlowQueryFault = (\<lambda>l. None),
       ListSlowQueryRows = (\<lambda>m l. []),
       DeleteOutdatedSlowLogFault = (\<lambda>i t. None),
       UpsertSlowLogFault = (\<lambda>u. None),
       GetAdminDatabaseDriver = (\<lambda>i d. Inr (mysql_driver failing)),
       IsSystemDatabase = (\<lambda>n. False) \<rparr>"

text \<open>A UTC date, and a location that falls back from four to five hours behind UTC six
  hours into day 98 (as New York does at the end of daylight saving time), with the date
  of day 98 in it.\<close>

definition utc_date :: "time \<Rightarrow> Time" where
  "utc_date t = \<lparr> instant = t, loc = UTC \<rparr>"



subsection \<open>Snapshots, keys and examples of the PostgreSQL routine\<close>

text \<open>All items of a snapshot, in the order in which the nested loops reach them, and
  the key under which an upsert stores.\<close>

definition snapshot_items :: "(string \<times> SlowQueryStatistics) list \<Rightarrow> SlowQueryStatisticsItem list" where
  "snapshot_items logMap = concat (map (\<lambda>(name, log). Items log) logMap)"

definition upsert_key :: "UpsertSlowLogMessage \<Rightarrow> string \<times> string \<times> time" where
  "upsert_key upsert = (UpsertInstanceID upsert, UpsertDatabaseName upsert, LogDate upsert)"

definition in_snapshot :: "(string \<times> SlowQueryStatistics) list \<Rightarrow> DatabaseMessage \<Rightarrow> bool" where
  "in_snapshot logMap database = (map_of logMap (DatabaseName database) \<noteq> None)"

text \<open>The message with which the loop lists the persisted records of a database for
  the day of the snapshot.\<close>

definition list_message :: "DatabaseMessage \<Rightarrow> time \<Rightarrow> ListSlowQueryMessage" where
  "list_message database latestLogDate =
     \<lparr> ListInstanceID = InstanceID database, ListDatabaseName = DatabaseName database,
       StartLogDate = latestLogDate, EndLogDate = AddDate 0 0 1 latestLogDate \<rparr>"

text \<open>A PostgreSQL instance with the databases that the store lists, the snapshot that
  the driver returns, the faults of listing and upserting, and the persisted rows.\<close>

definition pg_instance :: InstanceMessage where
  "pg_instance = \<lparr> ResourceID = ''pg'', Engine = POSTGRES, Deleted = False \<rparr>"

definition pg_database :: "string \<Rightarrow> DatabaseMessage" where
  "pg_database name = \<lparr> InstanceID = ''pg'', DatabaseName = name, SyncState = OK \<rparr>"

definition pg_env ::
  "DatabaseMessage list \<Rightarrow> (string \<times> SlowQueryStatistics) list \<Rightarrow>
   (ListSlowQueryMessage \<Rightarrow> error option) \<Rightarrow> (UpsertSlowLogMessage \<Rightarrow> error option) \<Rightarrow>
   (ListSlowQueryMessage \<Rightarrow> SlowQueryLog list) \<Rightarrow> env" where
  "pg_env databases logMap listFault upsertFault rows =
     \<lparr> Now = midnight 100 + 5 * Hour,
       GetSlowQueryPolicy = (\<lambda>i. Inr (Some \<lparr> Active = True \<rparr>)),
       ListDatabases = (\<lambda>i. Inr databases),
       GetLatestSlowLogDate = (\<lambda>m i. Inr None),
       ListSlowQueryFault = listFault,
       ListSlowQueryRows = (\<lambda>m l. rows l),
       DeleteOutdatedSlowLogFault = (\<lambda>i t. None),
       UpsertSlowLogFault = upsertFault,
       GetAdminDatabaseDriver =
         (\<lambda>i d. Inr \<lparr> CheckSlowQueryLogEnabled = None, SyncSlowQuery = (\<lambda>t. Inr logMap) \<rparr>),
       IsSystemDatabase = (\<lambda>n. False) \<rparr>"

definition item_at :: "string \<Rightarrow> time \<Rightarrow> SlowQueryStatisticsItem" where
  "item_at f t =
     \<lparr> SqlFingerprint = f, Count = 2, LatestLogTime = t,
       TotalQueryTime = 10, MaximumQueryTime = 7, TotalRowsSent = 4 \<rparr>"

text \<open>A snapshot of two databases with times on day 99, and one in which a database
  has an item of day 98 followed by an item of day 99, with a second database (that the
  store will not list) whose item is of day 98: whichever of the two the loops reach
  first, the first item is of day 98.\<close>

definition same_day_snapshot :: "(string \<times> SlowQueryStatistics) list" where
  "same_day_snapshot =
     [(''db1'', \<lparr> Items = [item_at ''select'' (midnight 99 + 3 * Hour)] \<rparr>),
      (''db2'', \<lparr> Items = [item_at ''update'' (midnight 99 + 7 * Hour)] \<rparr>)]"

definition two_day_snapshot :: "(string \<times> SlowQueryStatistics) list" where
  "two_day_snapshot =
     [(''db1'', \<lparr> Items = [item_at ''select'' (midnight 98 + Hour),
                           item_at ''update'' (midnight 99 + Hour)] \<rparr>),
      (''new'', \<lparr> Items = [item_at ''delete'' (midnight 98 + 2 * Hour)] \<rparr>)]"

definition persisted_row :: SlowQueryLog where
  "persisted_row =
     \<lparr> Statistics = \<lparr> SqlFingerprint_v1 = ''update'', Count_v1 = 3, LatestLogTime_v1 = midnight 99,
                      AverageQueryTime = 5, MaximumQueryTime_v1 = 9, AverageRowsSent = 2 \<rparr> \<rparr>"

text \<open>An instance whose slow query policy is the given one.\<close>

definition no_policy_env :: "SlowQueryPolicy option \<Rightarrow> env" where
  "no_policy_env policy = (mysql_env None None)\<lparr> GetSlowQueryPolicy := (\<lambda>i. Inr policy) \<rparr>"

text \<open>Two databases in the snapshot; for the first, both the listing of the persisted
  records and the upsert fail; for the second the store returns one persisted record.\<close>

definition db1_faults_env :: env where
  "db1_faults_env =
     pg_env [pg_database ''db1'', pg_database ''db2''] same_day_snapshot
       (\<lambda>l. if ListDatabaseName l = ''db1'' then Some (Failure ''list'') else None)
       (\<lambda>u. if UpsertDatabaseName u = ''db1'' then Some (Failure ''upsert'') else None)
       (\<lambda>l. [persisted_row])"

section \<open>Properties of the merge\<close>

lemma keyed_update:
  "keyed al \<Longrightarrow> SqlFingerprint v = k \<Longrightarrow> keyed (AList.update k v al)"
  by (induction al) (auto simp: keyed_def)

lemma keyed_find:
  "keyed al \<Longrightarrow> find (\<lambda>i. SqlFingerprint i = f) (map snd al) = map_of al f"
  by (induction al) (auto simp: keyed_def)

lemma keyed_seed_status: "keyed st \<Longrightarrow> keyed (seed_status items st)"
  by (induction items arbitrary: st) (simp_all add: keyed_update)

lemma accumulate_fingerprint [simp]: "SqlFingerprint (accumulate v st) = SqlFingerprint v"
  by (simp add: accumulate_def Let_def)

lemma keyed_map_of: "keyed al \<Longrightarrow> map_of al k = Some v \<Longrightarrow> SqlFingerprint v = k"
  by (induction al) (auto simp: keyed_def split: if_splits)

lemma keyed_merge_logs: "keyed st \<Longrightarrow> keyed (merge_logs logs st)"
proof (induction logs arbitrary: st)
  case Nil
  then show ?case by simp
next
  case (Cons log logs)
  show ?case
  proof (cases "map_of st (SqlFingerprint_v1 (Statistics log))")
    case None
    with Cons show ?thesis by (simp add: keyed_update new_item_def)
  next
    case (Some v)
    with Cons show ?thesis by (simp add: keyed_update keyed_map_of)
  qed
qed

lemma distinct_seed_status:
  "distinct (map fst st) \<Longrightarrow> distinct (map fst (seed_status items st))"
  by (induction items arbitrary: st) (simp_all add: distinct_update)

lemma distinct_merge_logs:
  "distinct (map fst st) \<Longrightarrow> distinct (map fst (merge_logs logs st))"
  by (induction logs arbitrary: st) (simp_all add: distinct_update split: option.splits)

lemma keyed_fingerprints: "keyed al \<Longrightarrow> map SqlFingerprint (map snd al) = map fst al"
  by (induction al) (auto simp: keyed_def)

lemma find_append_case:
  "find P (xs @ ys) = (case find P xs of None \<Rightarrow> find P ys | Some x \<Rightarrow> Some x)"
  by (induction xs) simp_all

lemma map_of_seed_status:
  "map_of (seed_status items st) f =
     (case find (\<lambda>i. SqlFingerprint i = f) (rev items) of
        None \<Rightarrow> map_of st f | Some i \<Rightarrow> Some i)"
proof (induction items arbitrary: st)
  case Nil
  then show ?case by simp
next
  case (Cons item items)
  show ?case
    by (simp add: Cons.IH update_conv' find_append_case split: option.splits)
qed

lemma map_of_merge_logs:
  "map_of (merge_logs logs st) f =
     (case map_of st f of
        None \<Rightarrow> (case records_for f logs of
                   [] \<Rightarrow> None
                 | r # rs \<Rightarrow> Some (accumulate_all (new_item r) rs))
      | Some v \<Rightarrow> Some (accumulate_all v (records_for f logs)))"
proof (induction logs arbitrary: st)
  case Nil
  then show ?case by (simp add: records_for_def split: option.splits)
next
  case (Cons log logs)
  show ?case
    by (simp add: Cons.IH update_conv' records_for_def split: option.splits list.splits)
qed

lemma accumulate_fields:
  "Count (accumulate v st) = Count v + Count_v1 st"
  "TotalQueryTime (accumulate v st) = TotalQueryTime v + AverageQueryTime st * Count_v1 st"
  "TotalRowsSent (accumulate v st) = TotalRowsSent v + AverageRowsSent st * Count_v1 st"
  "MaximumQueryTime (accumulate v st) = smax (MaximumQueryTime v) (MaximumQueryTime_v1 st)"
  "LatestLogTime (accumulate v st) = LatestLogTime v"
  by (simp_all add: accumulate_def Let_def smax_def)

lemma sint_smax: "sint (smax a b) = max (sint a) (sint b)"
  by (auto simp: smax_def word_sless_alt)

lemma accumulate_all_fingerprint: "SqlFingerprint (accumulate_all v sts) = SqlFingerprint v"
  by (induction sts arbitrary: v) simp_all

lemma accumulate_all_latest: "LatestLogTime (accumulate_all v sts) = LatestLogTime v"
  by (induction sts arbitrary: v) (simp_all add: accumulate_fields)

lemma accumulate_all_count:
  "Count (accumulate_all v sts) = Count v + sum_list (map Count_v1 sts)"
  by (induction sts arbitrary: v) (simp_all add: accumulate_fields add.assoc)

lemma accumulate_all_total:
  "TotalQueryTime (accumulate_all v sts) =
     TotalQueryTime v + sum_list (map (\<lambda>st. AverageQueryTime st * Count_v1 st) sts)"
  by (induction sts arbitrary: v) (simp_all add: accumulate_fields add.assoc)

lemma accumulate_all_rows:
  "TotalRowsSent (accumulate_all v sts) =
     TotalRowsSent v + sum_list (map (\<lambda>st. AverageRowsSent st * Count_v1 st) sts)"
  by (induction sts arbitrary: v) (simp_all add: accumulate_fields add.assoc)

lemma accumulate_all_max:
  "sint (MaximumQueryTime (accumulate_all v sts)) =
     Max (sint ` set (MaximumQueryTime v # map MaximumQueryTime_v1 sts))"
proof (induction sts arbitrary: v)
  case Nil
  then show ?case by simp
next
  case (Cons st sts)
  have "Max (sint ` set (MaximumQueryTime v # map MaximumQueryTime_v1 (st # sts))) =
        max (sint (MaximumQueryTime v))
          (Max (sint ` set (MaximumQueryTime_v1 st # map MaximumQueryTime_v1 sts)))"
    by simp
  also have "\<dots> = Max (sint ` set (smax (MaximumQueryTime v) (MaximumQueryTime_v1 st)
                 # map MaximumQueryTime_v1 sts))"
    by (cases "sts = []") (simp_all add: sint_smax max.assoc)
  finally show ?case
    by (simp only: accumulate_all.simps Cons.IH accumulate_fields)
qed

lemma map_of_rev_distinct: "distinct (map fst al) \<Longrightarrow> map_of (rev al) = map_of al"
proof -
  assume d: "distinct (map fst al)"
  then have "distinct (map fst (rev al))" by (simp add: rev_map [symmetric])
  from map_of_inject_set [OF this d] show ?thesis by simp
qed

lemma keyed_rev: "keyed al \<Longrightarrow> keyed (rev al)"
  by (simp add: keyed_def list_all_iff)

lemma keyed_find_rev:
  assumes "keyed al" and "distinct (map fst al)"
  shows "find (\<lambda>i. SqlFingerprint i = f) (rev (map snd al)) = map_of al f"
proof -
  have "find (\<lambda>i. SqlFingerprint i = f) (map snd (rev al)) = map_of (rev al) f"
    using assms(1) by (intro keyed_find keyed_rev)
  then show ?thesis
    using assms(2) by (simp add: rev_map [symmetric] map_of_rev_distinct)
qed

lemma item_for_pgMerge:
  "item_for f (pgMergeSlowQueryLog statistics logs) =
     (case item_for f statistics of
        None \<Rightarrow> (case records_for f logs of
                   [] \<Rightarrow> None
                 | r # rs \<Rightarrow> Some (accumulate_all (new_item r) rs))
      | Some v \<Rightarrow> Some (accumulate_all v (records_for f logs)))"
proof -
  let ?st = "merge_logs logs (seed_status (Items statistics) [])"
  have k: "keyed ?st"
    by (intro keyed_merge_logs keyed_seed_status) (simp add: keyed_def)
  have d: "distinct (map fst ?st)"
    by (intro distinct_merge_logs distinct_seed_status) simp
  have "item_for f (pgMergeSlowQueryLog statistics logs) = map_of ?st f"
    using keyed_find_rev [OF k d] by (simp add: item_for_def pgMergeSlowQueryLog_def)
  also have "\<dots> = (case map_of (seed_status (Items statistics) []) f of
        None \<Rightarrow> (case records_for f logs of
                   [] \<Rightarrow> None
                 | r # rs \<Rightarrow> Some (accumulate_all (new_item r) rs))
      | Some v \<Rightarrow> Some (accumulate_all v (records_for f logs)))"
    by (rule map_of_merge_logs)
  also have "map_of (seed_status (Items statistics) []) f = item_for f statistics"
    by (simp add: map_of_seed_status item_for_def split: option.splits)
  finally show ?thesis .
qed

lemma fingerprints_pgMerge:
  "distinct (map SqlFingerprint (Items (pgMergeSlowQueryLog statistics logs)))"
proof -
  let ?st = "merge_logs logs (seed_status (Items statistics) [])"
  have k: "keyed ?st"
    by (intro keyed_merge_logs keyed_seed_status) (simp add: keyed_def)
  have d: "distinct (map fst ?st)"
    by (intro distinct_merge_logs distinct_seed_status) simp
  have "map SqlFingerprint (Items (pgMergeSlowQueryLog statistics logs)) = map fst ?st"
    using keyed_fingerprints [OF k] by (simp only: pgMergeSlowQueryLog_def SlowQueryStatistics.simps)
  with d show ?thesis by simp
qed

text \<open>
  Claim C1. For every statistics value, every list of persisted records and every
  fingerprint \<open>f\<close>, the result of the merge holds at most one item per fingerprint, and
  for \<open>f\<close>:
  \<^item> if no existing item and no persisted record carries \<open>f\<close>, the result has no item
    for \<open>f\<close>;
  \<^item> if no existing item carries \<open>f\<close>, the item of the result is built from the
    persisted records of \<open>f\<close>: its total query time is the sum of
    \<open>averageQueryTime * count\<close> and its total rows sent the sum of
    \<open>averageRowsSent * count\<close> over them, and with a single persisted record of \<open>f\<close>
    it is exactly the new item with \<open>totalQueryTime = averageQueryTime * count\<close> and
    \<open>totalRowsSent = averageRowsSent * count\<close>;
  \<^item> if an existing item carries \<open>f\<close>, the count, the total query time and the total
    rows sent of the result are the existing values plus the contributions of the
    persisted records of \<open>f\<close>, the maximum query time is the maximum over both sides
    (as signed durations), and the latest log time is the existing item's.
  Sums and products are those of 64-bit machine integers.
\<close>

theorem pgMergeSlowQueryLog_per_fingerprint:
  "distinct (map SqlFingerprint (Items (pgMergeSlowQueryLog statistics logs))) \<and>
   (case item_for f statistics of
      None \<Rightarrow>
        (case records_for f logs of
           [] \<Rightarrow> item_for f (pgMergeSlowQueryLog statistics logs) = None
         | r # rs \<Rightarrow>
             (\<exists>it. item_for f (pgMergeSlowQueryLog statistics logs) = Some it \<and>
               SqlFingerprint it = f \<and>
               LatestLogTime it = LatestLogTime_v1 r \<and>
               Count it = sum_list (map Count_v1 (r # rs)) \<and>
               TotalQueryTime it =
                 sum_list (map (\<lambda>st. AverageQueryTime st * Count_v1 st) (r # rs)) \<and>
               TotalRowsSent it =
                 sum_list (map (\<lambda>st. AverageRowsSent st * Count_v1 st) (r # rs)) \<and>
               sint (MaximumQueryTime it) =
                 Max (sint ` set (map MaximumQueryTime_v1 (r # rs))) \<and>
               (if rs = [] then it = new_item r else True)))
    | Some v \<Rightarrow>
        (\<exists>it. item_for f (pgMergeSlowQueryLog statistics logs) = Some it \<and>
          SqlFingerprint it = f \<and>
          LatestLogTime it = LatestLogTime v \<and>
          Count it = Count v + sum_list (map Count_v1 (records_for f logs)) \<and>
          TotalQueryTime it = TotalQueryTime v +
            sum_list (map (\<lambda>st. AverageQueryTime st * Count_v1 st) (records_for f logs)) \<and>
          TotalRowsSent it = TotalRowsSent v +
            sum_list (map (\<lambda>st. AverageRowsSent st * Count_v1 st) (records_for f logs)) \<and>
          sint (MaximumQueryTime it) =
            Max (sint ` set (MaximumQueryTime v # map MaximumQueryTime_v1 (records_for f logs)))))"
proof -
  have fp_v: "SqlFingerprint v = f" if "item_for f statistics = Some v" for v
    using that by (auto simp: item_for_def find_Some_iff)
  have fp_r: "SqlFingerprint_v1 r = f" if "records_for f logs = r # rs" for r rs
  proof -
    have "r \<in> set (records_for f logs)" using that by simp
    then show ?thesis by (simp add: records_for_def)
  qed
  show ?thesis
  proof (cases "item_for f statistics")
    case None
    show ?thesis
    proof (cases "records_for f logs")
      case Nil
      with None show ?thesis
        by (simp add: item_for_pgMerge fingerprints_pgMerge)
    next
      case (Cons r rs)
      have "SqlFingerprint (new_item r) = f" "LatestLogTime (new_item r) = LatestLogTime_v1 r"
        "Count (new_item r) = Count_v1 r"
        "TotalQueryTime (new_item r) = AverageQueryTime r * Count_v1 r"
        "TotalRowsSent (new_item r) = AverageRowsSent r * Count_v1 r"
        "MaximumQueryTime (new_item r) = MaximumQueryTime_v1 r"
        using fp_r [OF Cons] by (simp_all add: new_item_def)
      with None Cons show ?thesis
        by (simp add: item_for_pgMerge fingerprints_pgMerge accumulate_all_fingerprint
            accumulate_all_latest accumulate_all_count accumulate_all_total
            accumulate_all_rows accumulate_all_max)
    qed
  next
    case (Some v)
    then show ?thesis
      by (simp add: item_for_pgMerge fingerprints_pgMerge accumulate_all_fingerprint
          accumulate_all_latest accumulate_all_count accumulate_all_total
          accumulate_all_rows accumulate_all_max fp_v)
  qed
qed

subsection \<open>Merging in either order\<close>

lemma filter_distinct_key:
  "distinct (map k xs) \<Longrightarrow>
     filter (\<lambda>x. k x = f) xs =
       (case find (\<lambda>x. k x = f) (rev xs) of None \<Rightarrow> [] | Some x \<Rightarrow> [x])"
proof (induction xs)
  case Nil
  show ?case by simp
next
  case (Cons x xs)
  show ?case
  proof (cases "k x = f")
    case True
    with Cons.prems have "f \<notin> k ` set xs" by simp
    then have "\<forall>y \<in> set xs. k y \<noteq> f" by blast
    then have "filter (\<lambda>x. k x = f) xs = []" "find (\<lambda>x. k x = f) (rev xs) = None"
      by (auto simp: filter_empty_conv find_None_iff)
    with True show ?thesis by (simp add: find_append_case)
  next
    case False
    with Cons show ?thesis by (simp add: find_append_case split: option.splits)
  qed
qed

lemma records_for_persisted_logs:
  assumes "distinct (map SqlFingerprint (Items statistics))"
  shows "records_for f (persisted_logs statistics) =
     (case item_for f statistics of None \<Rightarrow> [] | Some item \<Rightarrow> [persisted item])"
proof -
  have "records_for f (persisted_logs statistics) =
      map persisted (filter (\<lambda>item. SqlFingerprint item = f) (Items statistics))"
    by (simp add: records_for_def persisted_logs_def filter_map comp_def persisted_def)
  also have "\<dots> = (case item_for f statistics of None \<Rightarrow> [] | Some item \<Rightarrow> [persisted item])"
    by (simp add: filter_distinct_key [OF assms] item_for_def split: option.splits)
  finally show ?thesis .
qed

lemma item_for_member: "item_for f statistics = Some x \<Longrightarrow> x \<in> set (Items statistics)"
proof -
  assume "item_for f statistics = Some x"
  then have "x \<in> set (rev (Items statistics))"
    unfolding item_for_def find_Some_iff by (metis nth_mem)
  then show ?thesis by simp
qed

lemma persisted_fields:
  "SqlFingerprint_v1 (persisted item) = SqlFingerprint item"
  "Count_v1 (persisted item) = Count item"
  by (simp_all add: persisted_def)

lemma merged_with_persisted:
  assumes "distinct (map SqlFingerprint (Items b))"
  shows "item_for f (pgMergeSlowQueryLog a (persisted_logs b)) =
     (case item_for f a of
        None \<Rightarrow> (case item_for f b of
                   None \<Rightarrow> None
                 | Some y \<Rightarrow> Some (new_item (persisted y)))
      | Some x \<Rightarrow> (case item_for f b of
                     None \<Rightarrow> Some x
                   | Some y \<Rightarrow> Some (accumulate x (persisted y))))"
  by (simp add: item_for_pgMerge records_for_persisted_logs [OF assms] split: option.splits)

lemma one_item_for: "item_for ''q'' (one_item n t) = Some (hd (Items (one_item n t)))"
  by (simp add: item_for_def one_item_def)

text \<open>
  Claim C9, as amended. The two arguments of the merge have different types: the
  existing statistics carry totals, the incoming persisted records carry averages. Two
  statistics values \<open>a\<close> and \<open>b\<close> with at most one item per fingerprint are merged in
  either order by passing one as it is and the other as its persisted records. For every
  fingerprint the two results have an item in the same cases (when \<open>a\<close> or \<open>b\<close> has
  one), and then
  \<^item> the count is the same in both orders: the sum of the two counts;
  \<^item> the total query time of each result is the total of the side passed as statistics
    plus the total that \<open>averageQueryTime * count\<close> reconstructs from the record of the
    other side;
  \<^item> when the stored average of every item is exact (the average times the count is
    the total), the total query time is the same in both orders: the sum of the two
    totals.
\<close>

theorem pgMergeSlowQueryLog_swapped:
  assumes a: "distinct (map SqlFingerprint (Items a))"
    and b: "distinct (map SqlFingerprint (Items b))"
  shows "((item_for f (pgMergeSlowQueryLog a (persisted_logs b)) = None) =
            (item_for f a = None \<and> item_for f b = None)) \<and>
         (\<forall>x. item_for f (pgMergeSlowQueryLog a (persisted_logs b)) = Some x \<longrightarrow>
            (\<exists>y. item_for f (pgMergeSlowQueryLog b (persisted_logs a)) = Some y \<and>
               Count x = count_of f a + count_of f b \<and>
               Count y = Count x \<and>
               TotalQueryTime x = total_of f a + reconstructed_of f b \<and>
               TotalQueryTime y = total_of f b + reconstructed_of f a \<and>
               ((\<forall>item \<in> set (Items a) \<union> set (Items b). exact_average item) \<longrightarrow>
                  TotalQueryTime x = total_of f a + total_of f b \<and>
                  TotalQueryTime y = TotalQueryTime x)))"
proof -
  note ab = merged_with_persisted [OF b, of f a]
  note ba = merged_with_persisted [OF a, of f b]
  have exact: "reconstructed_of f s = total_of f s"
    if "\<forall>item \<in> set (Items s). exact_average item" for s
  proof (cases "item_for f s")
    case None
    then show ?thesis by (simp add: reconstructed_of_def total_of_def)
  next
    case (Some item)
    with that have "exact_average item" using item_for_member by blast
    with Some show ?thesis
      by (simp add: reconstructed_of_def total_of_def exact_average_def persisted_fields)
  qed
  have none: "(item_for f (pgMergeSlowQueryLog a (persisted_logs b)) = None) =
      (item_for f a = None \<and> item_for f b = None)"
    by (simp add: ab split: option.splits)
  have some: "\<exists>y. item_for f (pgMergeSlowQueryLog b (persisted_logs a)) = Some y \<and>
      Count x = count_of f a + count_of f b \<and>
      Count y = Count x \<and>
      TotalQueryTime x = total_of f a + reconstructed_of f b \<and>
      TotalQueryTime y = total_of f b + reconstructed_of f a"
    if "item_for f (pgMergeSlowQueryLog a (persisted_logs b)) = Some x" for x
    using that
    by (cases "item_for f a"; cases "item_for f b")
      (auto simp: ab ba count_of_def total_of_def reconstructed_of_def new_item_def
        accumulate_fields persisted_fields add.commute)
  show ?thesis
  proof (intro conjI allI impI)
    show "(item_for f (pgMergeSlowQueryLog a (persisted_logs b)) = None) =
      (item_for f a = None \<and> item_for f b = None)" by (rule none)
  next
    fix x assume x: "item_for f (pgMergeSlowQueryLog a (persisted_logs b)) = Some x"
    from some [OF x] obtain y where y:
      "item_for f (pgMergeSlowQueryLog b (persisted_logs a)) = Some y"
      "Count x = count_of f a + count_of f b"
      "Count y = Count x"
      "TotalQueryTime x = total_of f a + reconstructed_of f b"
      "TotalQueryTime y = total_of f b + reconstructed_of f a"
      by blast
    have "TotalQueryTime x = total_of f a + total_of f b \<and> TotalQueryTime y = TotalQueryTime x"
      if "\<forall>item \<in> set (Items a) \<union> set (Items b). exact_average item"
    proof -
      from that have "reconstructed_of f a = total_of f a" "reconstructed_of f b = total_of f b"
        by (simp_all add: exact)
      with y(4,5) show ?thesis by (simp add: add.commute)
    qed
    with y show "\<exists>y. item_for f (pgMergeSlowQueryLog b (persisted_logs a)) = Some y \<and>
      Count x = count_of f a + count_of f b \<and>
      Count y = Count x \<and>
      TotalQueryTime x = total_of f a + reconstructed_of f b \<and>
      TotalQueryTime y = total_of f b + reconstructed_of f a \<and>
      ((\<forall>item \<in> set (Items a) \<union> set (Items b). exact_average item) \<longrightarrow>
         TotalQueryTime x = total_of f a + total_of f b \<and>
         TotalQueryTime y = TotalQueryTime x)"
      by (intro exI [of _ y] conjI impI) simp_all
  qed
qed

theorem pgMergeSlowQueryLog_swapped_witness:
  "map_option Count
     (item_for ''q'' (pgMergeSlowQueryLog (one_item 1 5) (persisted_logs (one_item 2 10)))) =
     Some 3 \<and>
   map_option TotalQueryTime
     (item_for ''q'' (pgMergeSlowQueryLog (one_item 1 5) (persisted_logs (one_item 2 10)))) =
     Some 15 \<and>
   map_option Count
     (item_for ''q'' (pgMergeSlowQueryLog (one_item 2 10) (persisted_logs (one_item 1 5)))) =
     Some 3 \<and>
   map_option TotalQueryTime
     (item_for ''q'' (pgMergeSlowQueryLog (one_item 2 10) (persisted_logs (one_item 1 5)))) =
     Some 15"
proof -
  let ?a = "one_item 1 5" and ?b = "one_item 2 10"
  have a: "distinct (map SqlFingerprint (Items ?a))" by (simp add: one_item_def)
  have b: "distinct (map SqlFingerprint (Items ?b))" by (simp add: one_item_def)
  have exact: "\<forall>item \<in> set (Items ?a) \<union> set (Items ?b). exact_average item"
    by (simp add: one_item_def exact_average_def persisted_def quot_def)
  have count: "count_of ''q'' ?a + count_of ''q'' ?b = 3"
    by (simp add: count_of_def one_item_for) (simp add: one_item_def)
  have total: "total_of ''q'' ?a + total_of ''q'' ?b = 15"
    by (simp add: total_of_def one_item_for) (simp add: one_item_def)
  note swapped = pgMergeSlowQueryLog_swapped [OF a b, of "''q''"]
  from swapped [THEN conjunct1] obtain x where
    x: "item_for ''q'' (pgMergeSlowQueryLog ?a (persisted_logs ?b)) = Some x"
    by (auto simp: one_item_for)
  from swapped [THEN conjunct2, rule_format, OF x] exact obtain y where
    y: "item_for ''q'' (pgMergeSlowQueryLog ?b (persisted_logs ?a)) = Some y"
      "Count x = count_of ''q'' ?a + count_of ''q'' ?b" "Count y = Count x"
      "TotalQueryTime x = total_of ''q'' ?a + total_of ''q'' ?b"
      "TotalQueryTime y = TotalQueryTime x"
    by blast
  from x y count total show ?thesis by simp
qed

text \<open>
  Claim C9 as stated fails where a stored average is not exact. An item with count 1 and
  a total of 5 and an item with count 3 and a total of 10 (an average of 3) give the
  count 4 in both orders, and the total query time \<open>5 + 3 * 3 = 14\<close> in one order and
  \<open>10 + 5 * 1 = 15\<close> in the other.
\<close>

theorem pgMergeSlowQueryLog_swapped_counterexample:
  "map_option Count
     (item_for ''q'' (pgMergeSlowQueryLog (one_item 1 5) (persisted_logs (one_item 3 10)))) =
     Some 4 \<and>
   map_option TotalQueryTime
     (item_for ''q'' (pgMergeSlowQueryLog (one_item 1 5) (persisted_logs (one_item 3 10)))) =
     Some 14 \<and>
   map_option Count
     (item_for ''q'' (pgMergeSlowQueryLog (one_item 3 10) (persisted_logs (one_item 1 5)))) =
     Some 4 \<and>
   map_option TotalQueryTime
     (item_for ''q'' (pgMergeSlowQueryLog (one_item 3 10) (persisted_logs (one_item 1 5)))) =
     Some 15"
  by (simp add: item_for_def pgMergeSlowQueryLog_def persisted_logs_def one_item_def
      persisted_def quot_def accumulate_def new_item_def Let_def word_sless_alt)

section \<open>Properties of the task DAG store\<close>

text \<open>
  Claim C5. \<open>RebuildTaskDAG\<close> is atomic. For every stored edge set, every call and
  every way in which the steps of the call fail or succeed: when the call returns no
  error, the stored edges are the old ones without those into the target, followed by
  one edge from each element of the new predecessor list, and the table \<open>task\<close> is as
  before; when it returns an error, the stored tables are completely unchanged. It
  returns an error exactly when one of its four steps (beginning the transaction, the
  deletion, the insertion, the commit) fails.
\<close>

theorem RebuildTaskDAG_atomic:
  "(case RebuildTaskDAG fails fromTaskIDs toTaskID db of
      (None, db') \<Rightarrow>
        task_dag db' =
          filter (\<lambda>r. ToTaskID r \<noteq> toTaskID) (task_dag db) @
          map (\<lambda>f. \<lparr> FromTaskID = f, ToTaskID = toTaskID \<rparr>) fromTaskIDs \<and>
        task db' = task db
    | (Some err, db') \<Rightarrow> db' = db) \<and>
   ((fst (RebuildTaskDAG fails fromTaskIDs toTaskID db) = None) =
      (fails BeginTx = None \<and> fails ExecDelete = None \<and> fails ExecInsert = None \<and>
       fails Commit = None))"
  by (simp add: RebuildTaskDAG_def Let_def insert_unnest_def delete_to_task_def
      split: option.splits)

lemma edges_into_delete:
  "filter (\<lambda>r. ToTaskID r = t) (delete_to_task u rows) =
     (if t = u then [] else filter (\<lambda>r. ToTaskID r = t) rows)"
  by (induction rows) (auto simp: delete_to_task_def)

lemma edges_into_insert:
  "filter (\<lambda>r. ToTaskID r = t) (insert_unnest fs u rows) =
     filter (\<lambda>r. ToTaskID r = t) rows @
     (if t = u then map (\<lambda>f. \<lparr> FromTaskID = f, ToTaskID = u \<rparr>) fs else [])"
  by (induction fs) (auto simp: insert_unnest_def)

lemma edges_into_success:
  assumes "RebuildTaskDAG fails fromTaskIDs toTaskID db = (None, db')"
  shows "edges_into t db' =
     (if t = toTaskID then map (\<lambda>f. \<lparr> FromTaskID = f, ToTaskID = toTaskID \<rparr>) fromTaskIDs
      else edges_into t db)"
proof -
  have "task_dag db' =
      insert_unnest fromTaskIDs toTaskID (delete_to_task toTaskID (task_dag db))"
    using assms by (auto simp: RebuildTaskDAG_def Let_def split: option.splits)
  then show ?thesis
    by (simp add: edges_into_def edges_into_insert edges_into_delete)
qed

lemma count_list_filter: "P x \<Longrightarrow> count_list (filter P xs) x = count_list xs x"
  by (induction xs) auto

lemma count_list_edges:
  "count_list (map (\<lambda>f. \<lparr> FromTaskID = f, ToTaskID = t \<rparr>) fs) \<lparr> FromTaskID = f, ToTaskID = t \<rparr> =
     count_list fs f"
  by (induction fs) auto

lemma rebuild_calls_snoc:
  "rebuild_calls (calls @ [(fails, fromTaskIDs, toTaskID)]) db =
     (case rebuild_calls calls db of
        (errs, db') \<Rightarrow>
          (case RebuildTaskDAG fails fromTaskIDs toTaskID db' of
             (err, db'') \<Rightarrow> (errs @ [err], db'')))"
  by (induction calls arbitrary: db) (auto split: prod.splits)

text \<open>
  Claim C4. After a sequence of calls of \<open>RebuildTaskDAG\<close> that all returned no error,
  the last of them for the target \<open>toTaskID\<close> with the predecessors \<open>fromTaskIDs\<close>, the
  stored edges into \<open>toTaskID\<close> are exactly one edge \<open>(f, toTaskID)\<close> for each element
  \<open>f\<close> of \<open>fromTaskIDs\<close> and no other: an edge \<open>(f, toTaskID)\<close> is stored as often as
  \<open>f\<close> occurs in \<open>fromTaskIDs\<close>, once for a member of a predecessor set and not at all
  otherwise. The earlier calls may be for any target. The witness is the scenario of
  the claim: predecessors \<open>{1, 2}\<close> and then \<open>{3}\<close> for task 5 leave \<open>(3, 5)\<close> as the
  only edge into task 5.
\<close>

theorem RebuildTaskDAG_last_call_wins:
  assumes "rebuild_calls (calls @ [(fails, fromTaskIDs, toTaskID)]) db = (errs, db')"
    and "list_all (\<lambda>err. err = None) errs"
  shows "edges_into toTaskID db' =
           map (\<lambda>f. \<lparr> FromTaskID = f, ToTaskID = toTaskID \<rparr>) fromTaskIDs \<and>
         (\<forall>f. count_list (task_dag db') \<lparr> FromTaskID = f, ToTaskID = toTaskID \<rparr> =
                count_list fromTaskIDs f)"
proof -
  obtain errs0 db0 where r0: "rebuild_calls calls db = (errs0, db0)"
    by (cases "rebuild_calls calls db")
  obtain err where r1: "RebuildTaskDAG fails fromTaskIDs toTaskID db0 = (err, db')"
    and e: "errs = errs0 @ [err]"
    using assms(1) r0 by (auto simp: rebuild_calls_snoc split: prod.splits)
  from assms(2) e have "err = None" by simp
  with r1 have a: "edges_into toTaskID db' =
      map (\<lambda>f. \<lparr> FromTaskID = f, ToTaskID = toTaskID \<rparr>) fromTaskIDs"
    by (simp add: edges_into_success)
  have "count_list (task_dag db') \<lparr> FromTaskID = f, ToTaskID = toTaskID \<rparr> =
        count_list (edges_into toTaskID db') \<lparr> FromTaskID = f, ToTaskID = toTaskID \<rparr>" for f
    unfolding edges_into_def by (subst count_list_filter) simp_all
  then have "count_list (task_dag db') \<lparr> FromTaskID = f, ToTaskID = toTaskID \<rparr> =
        count_list fromTaskIDs f" for f
    by (simp add: a count_list_edges)
  with a show ?thesis by simp
qed

theorem RebuildTaskDAG_last_call_wins_witness:
  "edges_into 5 (snd (rebuild_calls [(no_faults, [1, 2], 5), (no_faults, [3], 5)] example_db)) =
     [\<lparr> FromTaskID = 3, ToTaskID = 5 \<rparr>] \<and>
   task_dag (snd (rebuild_calls [(no_faults, [1, 2], 5), (no_faults, [3], 5)] example_db)) =
     [\<lparr> FromTaskID = 1, ToTaskID = 2 \<rparr>, \<lparr> FromTaskID = 3, ToTaskID = 5 \<rparr>]"
proof -
  have r: "rebuild_calls ([(no_faults, [1, 2], 5)] @ [(no_faults, [3], 5)]) example_db =
     ([None, None], \<lparr> task_dag = [\<lparr> FromTaskID = 1, ToTaskID = 2 \<rparr>, \<lparr> FromTaskID = 3, ToTaskID = 5 \<rparr>], task = [] \<rparr>)"
    by (simp add: RebuildTaskDAG_def no_faults_def example_db_def insert_unnest_def delete_to_task_def)
  from RebuildTaskDAG_last_call_wins [OF r] r show ?thesis by simp
qed

lemma set_select_task_dags:
  assumes "StageID find' \<noteq> None \<or> PipelineID find' \<noteq> None"
  shows "set (select_task_dags find' db) =
           {d \<in> set (task_dag db). belongs find' db (FromTaskID d)}"
  using assms by (auto simp: select_task_dags_def belongs_def list_ex_iff)

lemma filter_unique_row:
  assumes "distinct (map task_id ts)"
  shows "map (\<lambda>t. d) (filter (\<lambda>t. task_id t = i \<and> P t) ts) =
           (if list_ex (\<lambda>t. task_id t = i \<and> P t) ts then [d] else [])"
  using assms
proof (induction ts)
  case Nil
  then show ?case by simp
next
  case (Cons t ts)
  from Cons.prems have "task_id t \<notin> task_id ` set ts" and "distinct (map task_id ts)"
    by simp_all
  then have "\<not> list_ex (\<lambda>t'. task_id t' = task_id t \<and> P t') ts"
    and "map (\<lambda>t. d) (filter (\<lambda>t. task_id t = i \<and> P t) ts) =
           (if list_ex (\<lambda>t. task_id t = i \<and> P t) ts then [d] else [])"
    using Cons.IH by (auto simp: list_ex_iff image_iff)
  then show ?case
    by (cases "task_id t = i") auto
qed

lemma select_task_dags_unique:
  assumes "StageID find' \<noteq> None \<or> PipelineID find' \<noteq> None"
    and "distinct (map task_id (task db))"
  shows "select_task_dags find' db =
           filter (\<lambda>d. belongs find' db (FromTaskID d)) (task_dag db)"
proof -
  have "concat (map (\<lambda>d. if Q d then [d] else []) ds) = filter Q ds" for Q and ds :: "TaskDAGMessage list"
    by (induction ds) simp_all
  then show ?thesis
    using assms by (simp add: select_task_dags_def filter_unique_row belongs_def)
qed

lemma same_stage_belongs:
  assumes "same_stage_edges db" and "d \<in> set (task_dag db)"
    and "belongs find' db (FromTaskID d)"
  shows "belongs find' db (ToTaskID d)"
proof -
  from assms(3) obtain a where a: "a \<in> set (task db)" "task_id a = FromTaskID d"
      "where_clause find' a"
    by (auto simp: belongs_def list_ex_iff)
  from assms(1,2) obtain b where b: "b \<in> set (task db)" "task_id b = ToTaskID d"
    by (auto simp: same_stage_edges_def list_all_iff list_ex_iff)
  from assms(1,2) a(1,2) b have "task_stage_id a = task_stage_id b"
      "task_pipeline_id a = task_pipeline_id b"
    by (auto simp: same_stage_edges_def list_all_iff)
  with a(3) have "where_clause find' b"
    by (simp add: where_clause_def split: option.splits)
  with b show ?thesis
    by (auto simp: belongs_def list_ex_iff)
qed

lemma ListTaskDags_Inr:
  "ListTaskDags fails find' db = Inr rows \<Longrightarrow> rows = select_task_dags find' db"
  by (auto simp: ListTaskDags_def Let_def split: option.splits if_splits)

text \<open>
  Claim C6, as amended. For every stored edge set and every filter that carries a stage
  or a pipeline identifier, a successful \<open>ListTaskDags\<close> returns exactly the edges whose
  from-task belongs to the filtered stage and pipeline (as a list, in the order of the
  table, when the task identifiers are unique). The query joins \<open>task\<close> on the from-task
  only; the code's comment gives the reason: the from-task and the to-task of an edge are
  in the same pipeline and stage. Where the stored edges satisfy that, the result is
  exactly the edges both of whose endpoints belong to the filtered stage and pipeline.
\<close>

theorem ListTaskDags_from_endpoint:
  assumes "StageID find' \<noteq> None \<or> PipelineID find' \<noteq> None"
    and "ListTaskDags fails find' db = Inr rows"
  shows "set rows = {d \<in> set (task_dag db). belongs find' db (FromTaskID d)} \<and>
         (distinct (map task_id (task db)) \<longrightarrow>
            rows = filter (\<lambda>d. belongs find' db (FromTaskID d)) (task_dag db)) \<and>
         (same_stage_edges db \<longrightarrow> set rows = set (both_endpoints find' db))"
proof -
  have rows: "rows = select_task_dags find' db"
    using assms(2) by (rule ListTaskDags_Inr)
  have 1: "set rows = {d \<in> set (task_dag db). belongs find' db (FromTaskID d)}"
    unfolding rows using assms(1) by (rule set_select_task_dags)
  have 2: "rows = filter (\<lambda>d. belongs find' db (FromTaskID d)) (task_dag db)"
    if "distinct (map task_id (task db))"
    unfolding rows using assms(1) that by (rule select_task_dags_unique)
  have 3: "set rows = set (both_endpoints find' db)" if "same_stage_edges db"
    using 1 same_stage_belongs [OF that] by (auto simp: both_endpoints_def)
  from 1 2 3 show ?thesis by blast
qed

text \<open>
  Claim C6 as stated fails on an edge between two stages: with task 1 in stage 10, task 2
  in stage 20 and the edge \<open>(1, 2)\<close>, the filter for stage 10 returns the edge, although
  task 2 does not belong to stage 10.
\<close>

theorem ListTaskDags_both_endpoints_counterexample:
  "ListTaskDags no_faults \<lparr> StageID = Some 10, PipelineID = None \<rparr> cross_stage_db =
     Inr [\<lparr> FromTaskID = 1, ToTaskID = 2 \<rparr>] \<and>
   both_endpoints \<lparr> StageID = Some 10, PipelineID = None \<rparr> cross_stage_db = [] \<and>
   \<not> belongs \<lparr> StageID = Some 10, PipelineID = None \<rparr> cross_stage_db 2"
  by (simp add: ListTaskDags_def no_faults_def select_task_dags_def where_clause_def
      cross_stage_db_def both_endpoints_def belongs_def)

theorem ListTaskDags_from_endpoint_witness:
  "ListTaskDags no_faults \<lparr> StageID = Some 10, PipelineID = Some 100 \<rparr> stage_db =
     Inr [\<lparr> FromTaskID = 1, ToTaskID = 2 \<rparr>] \<and>
   same_stage_edges stage_db \<and> distinct (map task_id (task stage_db)) \<and>
   set (both_endpoints \<lparr> StageID = Some 10, PipelineID = Some 100 \<rparr> stage_db) =
     {\<lparr> FromTaskID = 1, ToTaskID = 2 \<rparr>}"
proof -
  have r: "ListTaskDags no_faults \<lparr> StageID = Some 10, PipelineID = Some 100 \<rparr> stage_db =
     Inr [\<lparr> FromTaskID = 1, ToTaskID = 2 \<rparr>]"
    by (simp add: ListTaskDags_def no_faults_def select_task_dags_def where_clause_def
        stage_db_def)
  have s: "same_stage_edges stage_db"
    by (simp add: same_stage_edges_def stage_db_def)
  have d: "distinct (map task_id (task stage_db))"
    by (simp add: stage_db_def)
  have f: "StageID \<lparr> StageID = Some 10, PipelineID = Some 100 \<rparr> \<noteq> None \<or>
           PipelineID \<lparr> StageID = Some (10::int), PipelineID = Some (100::int) \<rparr> \<noteq> None"
    by simp
  from ListTaskDags_from_endpoint [OF f r] s d r show ?thesis by auto
qed

section \<open>Properties of the MySQL routine\<close>

lemma Hour_pos: "0 < 24 * Hour"
  by (simp add: Hour_def)

lemma div_step:
  assumes "0 < (d::int)"
  shows "(a - s) div d = (a - (s + d)) div d + 1"
proof -
  define x where "x = a - (s + d)"
  have "a - s = x + d" by (simp add: x_def)
  moreover have "(x + d) div d = x div d + 1"
    using assms div_add_self2 [of d x] by simp
  ultimately show ?thesis unfolding x_def by (simp only:)
qed



lemma day_range_sorted: "sorted_wrt (<) (day_range start today)"
proof -
  have "sorted_wrt (\<lambda>j k. start + int j * (24 * Hour) < start + int k * (24 * Hour)) [0..<n]" for n
    using Hour_pos by (intro sorted_wrt_mono_rel [OF _ sorted_wrt_upt]) simp
  then show ?thesis by (simp add: day_range_def sorted_wrt_map)
qed

lemma day_range_distinct: "distinct (day_range start today)"
  using day_range_sorted [of start today] by (simp add: strict_sorted_iff)

lemma upsert_all_ok:
  assumes "\<forall>(dbName, slowLog) \<in> set logs. UpsertSlowLogFault e
             \<lparr> UpsertInstanceID = ResourceID instance, UpsertDatabaseName = dbName,
               LogDate = date, SlowLog = slowLog \<rparr> = None"
  shows "upsert_all e instance date logs st =
     (None, st\<lparr>slow_query := put_logs (ResourceID instance) date logs (slow_query st),
                history := history st @ tl (day_events instance date logs)\<rparr>)"
  using assms
proof (induction logs arbitrary: st)
  case Nil
  then show ?case by (simp add: day_events_def)
next
  case (Cons l logs)
  obtain dbName slowLog where l: "l = (dbName, slowLog)" by (cases l)
  from Cons.prems have rest: "\<forall>(dbName, slowLog) \<in> set logs. UpsertSlowLogFault e
             \<lparr> UpsertInstanceID = ResourceID instance, UpsertDatabaseName = dbName,
               LogDate = date, SlowLog = slowLog \<rparr> = None"
    by simp
  from Cons.prems l have this_ok: "UpsertSlowLogFault e
             \<lparr> UpsertInstanceID = ResourceID instance, UpsertDatabaseName = dbName,
               LogDate = date, SlowLog = slowLog \<rparr> = None"
    by simp
  show ?case
    by (simp add: l this_ok UpsertSlowLog_def Cons.IH [OF rest] day_events_def)
qed

lemma put_logs_other:
  "t \<noteq> date \<Longrightarrow> put_logs i date logs m (i', dbName, t) = m (i', dbName, t)"
  by (induction i date logs m rule: put_logs.induct) simp_all

lemma put_logs_absent:
  "dbName \<notin> fst ` set logs \<Longrightarrow> put_logs i date logs m (i, dbName, date) = m (i, dbName, date)"
  by (induction i date logs m rule: put_logs.induct) auto

lemma put_logs_lookup:
  "distinct (map fst logs) \<Longrightarrow> (dbName, slowLog) \<in> set logs \<Longrightarrow>
     put_logs i date logs m (i, dbName, date) = Some slowLog"
proof (induction i date logs m rule: put_logs.induct)
  case (1 i date m)
  then show ?case by simp
next
  case (2 i date n s logs m)
  show ?case
  proof (cases "(dbName, slowLog) \<in> set logs")
    case True
    with "2.prems" have "put_logs i date logs (m((i, n, date) \<mapsto> s)) (i, dbName, date) =
        Some slowLog"
      by (intro "2.IH") simp_all
    then show ?thesis by (simp only: put_logs.simps)
  next
    case False
    with "2.prems" have eq: "n = dbName" "s = slowLog" by auto
    from "2.prems" eq have "dbName \<notin> fst ` set logs" by simp
    then show ?thesis by (simp add: eq put_logs_absent)
  qed
qed

lemma put_days_other:
  "t \<notin> set ds \<Longrightarrow> put_days i fetched ds m (i', dbName, t) = m (i', dbName, t)"
  by (induction ds arbitrary: m) (auto simp: put_logs_other)

lemma Truncate_day: "Truncate (24 * Hour) t = t - t mod (24 * Hour)"
  using Hour_pos by (simp add: Truncate_def)

lemma Truncate_mod: "Truncate (24 * Hour) t mod (24 * Hour) = 0"
  by (simp add: Truncate_day minus_mod_eq_mult_div)

lemma Truncate_le: "Truncate (24 * Hour) t \<le> t"
  using Hour_pos by (simp add: Truncate_day)

lemma Truncate_aligned: "t mod (24 * Hour) = 0 \<Longrightarrow> Truncate (24 * Hour) t = t"
  by (simp add: Truncate_day)

lemma Truncate_ge:
  assumes "a mod (24 * Hour) = 0" and "a \<le> t"
  shows "a \<le> Truncate (24 * Hour) t"
proof -
  let ?d = "24 * Hour"
  have "a div ?d \<le> t div ?d" using assms(2) Hour_pos by (intro zdiv_mono1) simp_all
  then have "a div ?d * ?d \<le> t div ?d * ?d"
    using Hour_pos by (simp only: mult_right_mono less_imp_le)
  moreover have "a div ?d * ?d = a" using assms(1) by (simp add: mod_eq_0_iff_dvd)
  moreover have "t div ?d * ?d = t - t mod ?d" by (simp add: minus_mod_eq_div_mult)
  ultimately show ?thesis by (simp add: Truncate_day)
qed

lemma earliest_mod:
  "today mod (24 * Hour) = 0 \<Longrightarrow> AddDate 0 0 (- retentionCycle) today mod (24 * Hour) = 0"
  by (simp add: AddDate_def retentionCycle_def mod_eq_0_iff_dvd)

lemma today_mod: "Truncate (24 * Hour) (Now e) mod (24 * Hour) = 0"
  by (rule Truncate_mod)



lemma DeleteOutdatedSlowLog_history:
  "DeleteOutdatedSlowLog e i t st = (r, st1) \<Longrightarrow> history st1 = history st @ [Delete i t]"
  by (auto simp: DeleteOutdatedSlowLog_def Let_def split: option.splits)

lemma midnight_less: "(midnight a < midnight b) = (a < b)"
  by (simp add: midnight_def Hour_def)

lemma midnight_eq: "(midnight a = midnight b) = (a = b)"
  by (simp add: midnight_def Hour_def)

lemma put_days_append:
  "put_days i fetched (xs @ ys) m = put_days i fetched ys (put_days i fetched xs m)"
  by (induction xs arbitrary: m) simp_all

lemma put_days_lookup:
  "d \<in> set ds \<Longrightarrow> distinct (map fst (fetched d)) \<Longrightarrow> (dbName, slowLog) \<in> set (fetched d) \<Longrightarrow>
     put_days i fetched ds m (i, dbName, d) = Some slowLog"
proof (induction ds arbitrary: m)
  case Nil
  then show ?case by simp
next
  case (Cons d0 ds)
  show ?case
  proof (cases "d \<in> set ds")
    case True
    with Cons show ?thesis by simp
  next
    case False
    with Cons.prems have "d = d0" by simp
    with False Cons.prems show ?thesis
      by (simp add: put_days_other put_logs_lookup)
  qed
qed


lemma mysql_days_fetch_fails:
  "instant date \<le> today \<Longrightarrow> SyncSlowQuery driver (instant date) = Inl err \<Longrightarrow>
     mysql_days e driver instance today date st =
       Some (Some err, st\<lparr>history := history st @ [Fetch (ResourceID instance) (instant date)]\<rparr>)"
  by (subst mysql_days.simps) (simp add: fetch_def)

lemma mysql_days_day:
  assumes "instant date \<le> today"
    and "SyncSlowQuery driver (instant date) = Inr logs"
    and "\<forall>(dbName, slowLog) \<in> set logs. UpsertSlowLogFault e
           \<lparr> UpsertInstanceID = ResourceID instance, UpsertDatabaseName = dbName,
             LogDate = instant date, SlowLog = slowLog \<rparr> = None"
  shows "mysql_days e driver instance today date st =
     mysql_days e driver instance today (AddDateIn 0 0 1 date)
       (st\<lparr>slow_query := put_logs (ResourceID instance) (instant date) logs (slow_query st),
           history := history st @ day_events instance (instant date) logs\<rparr>)"
  using assms(1,2)
  by (subst mysql_days.simps) (simp add: fetch_def upsert_all_ok [OF assms(3)] day_events_def)

lemma loop_date_Suc: "loop_date start (Suc k) = AddDateIn 0 0 1 (loop_date start k)"
  by (simp add: loop_date_def)

lemma mysql_days_steps:
  assumes "\<forall>j<k. instant (loop_date start j) \<le> today \<and>
            SyncSlowQuery driver (instant (loop_date start j)) =
              Inr (fetched (instant (loop_date start j))) \<and>
            (\<forall>(dbName, slowLog) \<in> set (fetched (instant (loop_date start j))).
               UpsertSlowLogFault e
                 \<lparr> UpsertInstanceID = ResourceID instance, UpsertDatabaseName = dbName,
                   LogDate = instant (loop_date start j), SlowLog = slowLog \<rparr> = None)"
  shows "mysql_days e driver instance today start st =
     mysql_days e driver instance today (loop_date start k)
       (st\<lparr>slow_query := put_days (ResourceID instance) fetched
              (map (\<lambda>j. instant (loop_date start j)) [0..<k]) (slow_query st),
           history := history st @
             concat (map (\<lambda>j. day_events instance (instant (loop_date start j))
                                (fetched (instant (loop_date start j)))) [0..<k])\<rparr>)"
  using assms
proof (induction k)
  case 0
  show ?case by (simp add: loop_date_def)
next
  case (Suc k)
  let ?d = "loop_date start k"
  from Suc.prems have day: "instant ?d \<le> today"
    "SyncSlowQuery driver (instant ?d) = Inr (fetched (instant ?d))"
    "\<forall>(dbName, slowLog) \<in> set (fetched (instant ?d)). UpsertSlowLogFault e
       \<lparr> UpsertInstanceID = ResourceID instance, UpsertDatabaseName = dbName,
         LogDate = instant ?d, SlowLog = slowLog \<rparr> = None"
    by simp_all
  from Suc.prems have "\<forall>j<k. instant (loop_date start j) \<le> today \<and>
            SyncSlowQuery driver (instant (loop_date start j)) =
              Inr (fetched (instant (loop_date start j))) \<and>
            (\<forall>(dbName, slowLog) \<in> set (fetched (instant (loop_date start j))).
               UpsertSlowLogFault e
                 \<lparr> UpsertInstanceID = ResourceID instance, UpsertDatabaseName = dbName,
                   LogDate = instant (loop_date start j), SlowLog = slowLog \<rparr> = None)"
    by simp
  note IH = Suc.IH [OF this]
  show ?case
    unfolding IH
    by (subst mysql_days_day [OF day]) (simp add: loop_date_Suc put_days_append)
qed

lemma AddDateIn_fixed:
  assumes "fixed_offset (loc t)"
  shows "AddDateIn 0 0 n t = t\<lparr>instant := instant t + n * (24 * Hour)\<rparr>"
proof -
  define c where "c = loc t (instant t)"
  have "loc t x = c" for x
    using assms by (simp add: fixed_offset_def c_def)
  then show ?thesis by (simp add: AddDateIn_def Let_def)
qed

lemma loop_date_fixed:
  assumes "fixed_offset (loc start)"
  shows "loop_date start k = start\<lparr>instant := instant start + int k * (24 * Hour)\<rparr>"
proof (induction k)
  case 0
  show ?case by (simp add: loop_date_def)
next
  case (Suc k)
  have "fixed_offset (loc (start\<lparr>instant := instant start + int k * (24 * Hour)\<rparr>))"
    using assms by simp
  from AddDateIn_fixed [OF this, of 1] show ?case
    by (simp add: loop_date_Suc Suc algebra_simps)
qed

lemma fixed_offset_UTC: "fixed_offset UTC"
  by (simp add: fixed_offset_def UTC_def)

lemma today_of_mod: "today_of e mod (24 * Hour) = 0"
  unfolding today_of_def by (rule Truncate_mod)

lemma earliest_of_eq: "earliest_of e = today_of e - 30 * (24 * Hour)"
  by (simp add: earliest_of_def AddDate_def retentionCycle_def)

lemma earliest_of_mod: "earliest_of e mod (24 * Hour) = 0"
  unfolding earliest_of_def by (rule earliest_mod [OF today_of_mod])

lemma loop_start_fixed:
  assumes "\<forall>l. latest = Some l \<longrightarrow> fixed_offset (loc l)"
  shows "instant (loop_start e latest) = spec_resume_point e latest"
    and "fixed_offset (loc (loop_start e latest))"
proof -
  show "fixed_offset (loc (loop_start e latest))"
    using assms
    by (auto simp: loop_start_def resumeDate_def TruncateIn_def fixed_offset_UTC
        split: option.splits)
  show "instant (loop_start e latest) = spec_resume_point e latest"
  proof (cases latest)
    case None
    then show ?thesis
      using earliest_of_mod [of e]
      by (simp add: loop_start_def resumeDate_def TruncateIn_def spec_resume_point_def
          Truncate_aligned earliest_of_eq)
  next
    case (Some l)
    with assms have "fixed_offset (loc l)" by simp
    then have add: "instant (AddDateIn 0 0 retentionCycle l) = instant l + 30 * (24 * Hour)"
      by (simp add: AddDateIn_fixed retentionCycle_def)
    show ?thesis
    proof (cases "instant l + 30 * (24 * Hour) < today_of e")
      case True
      then have "instant l < earliest_of e" by (simp add: earliest_of_eq)
      with Truncate_le [of "instant l"] have "Truncate (24 * Hour) (instant l) \<le> earliest_of e"
        by simp
      then show ?thesis
        using Some True add earliest_of_mod [of e]
        by (simp add: loop_start_def resumeDate_def TruncateIn_def spec_resume_point_def
            Truncate_aligned earliest_of_eq)
    next
      case False
      then have "earliest_of e \<le> instant l" by (simp add: earliest_of_eq)
      then have "earliest_of e \<le> Truncate (24 * Hour) (instant l)"
        using earliest_of_mod by (intro Truncate_ge)
      then show ?thesis
        using Some False add
        by (simp add: loop_start_def resumeDate_def TruncateIn_def spec_resume_point_def
            earliest_of_eq)
    qed
  qed
qed




lemma syncMySQLSlowQuery_loop:
  assumes "DeleteOutdatedSlowLog e (ResourceID instance) (earliest_of e) st = (None, st1)"
    and "GetLatestSlowLogDate e (slow_query st1) (ResourceID instance) = Inr latest"
    and "GetAdminDatabaseDriver e instance None = Inr driver"
    and "CheckSlowQueryLogEnabled driver = None"
  shows "syncMySQLSlowQuery e instance st =
           mysql_days e driver instance (today_of e) (loop_start e latest) st1"
  using assms
  by (simp add: syncMySQLSlowQuery_def Let_def today_of_def [symmetric]
      earliest_of_def [symmetric] loop_start_def)

lemma example_today: "today_of (mysql_env latest failing) = midnight 100"
  by (simp add: today_of_def mysql_env_def Truncate_def midnight_def Hour_def)

lemma example_earliest: "earliest_of (mysql_env latest failing) = midnight 70"
  by (simp add: earliest_of_def example_today AddDate_def retentionCycle_def midnight_def)

lemma midnight_le: "(midnight a \<le> midnight b) = (a \<le> b)"
  by (simp add: midnight_def Hour_def)

lemma midnight_add: "midnight a + int j * (24 * Hour) = midnight (a + int j)"
  by (simp add: midnight_def algebra_simps)

lemma utc_date_fixed: "\<forall>l. Some (utc_date t) = Some l \<longrightarrow> fixed_offset (loc l)"
  by (simp add: utc_date_def fixed_offset_UTC)

lemma example_resume:
  "70 \<le> a \<Longrightarrow>
     spec_resume_point (mysql_env latest failing) (Some (utc_date (midnight a))) = midnight a"
  by (simp add: spec_resume_point_def example_today utc_date_def Truncate_def midnight_def
      Hour_def)

lemma example_loop_date:
  "70 \<le> a \<Longrightarrow>
     instant (loop_date (loop_start (mysql_env latest failing) (Some (utc_date (midnight a)))) j) =
       midnight (a + int j)"
  using loop_start_fixed [where latest = "Some (utc_date (midnight a))"
      and e = "mysql_env latest failing", OF utc_date_fixed]
  by (simp add: loop_date_fixed example_resume midnight_add)









text \<open>
  Claim C3. In a run of the MySQL routine that reaches the loop, let the fetch fail for a
  day \<open>d\<close> that the loop reaches (its date after \<open>k\<close> steps, not after today), the
  fetches and upserts of the days before it having succeeded. Then the routine returns
  the error of the fetch; its calls after the deletion are the fetches and upserts of
  the days before \<open>d\<close>, in the order of the loop, and then the failed fetch of \<open>d\<close>,
  with which the calls end: there is no upsert for \<open>d\<close> and no later day is attempted;
  and every log fetched for a day before \<open>d\<close> is in the store at the end. This holds
  whatever the location of the store's latest log date. When that date is absent or in
  a location of constant offset, the days of the loop are the resume point and the
  midnights after it, and every call before the failed fetch is for a day before \<open>d\<close>.
  The witness is the scenario of the claim: the latest log date is day 95, today is day
  100 and the fetch of day 98 fails; days 95 to 97 are in the store, and days 99 and 100
  are never fetched.
\<close>

theorem syncMySQLSlowQuery_fetch_failure:
  assumes del: "DeleteOutdatedSlowLog e (ResourceID instance) (earliest_of e) st = (None, st1)"
    and latest: "GetLatestSlowLogDate e (slow_query st1) (ResourceID instance) = Inr latest"
    and driver: "GetAdminDatabaseDriver e instance None = Inr driver"
    and enabled: "CheckSlowQueryLogEnabled driver = None"
    and ok: "\<forall>j<k. instant (loop_date (loop_start e latest) j) \<le> today_of e \<and>
            SyncSlowQuery driver (instant (loop_date (loop_start e latest) j)) =
              Inr (fetched (instant (loop_date (loop_start e latest) j))) \<and>
            (\<forall>(dbName, slowLog) \<in> set (fetched (instant (loop_date (loop_start e latest) j))).
               UpsertSlowLogFault e
                 \<lparr> UpsertInstanceID = ResourceID instance, UpsertDatabaseName = dbName,
                   LogDate = instant (loop_date (loop_start e latest) j),
                   SlowLog = slowLog \<rparr> = None)"
    and d: "instant (loop_date (loop_start e latest) k) \<le> today_of e"
    and fail: "SyncSlowQuery driver (instant (loop_date (loop_start e latest) k)) = Inl err"
  shows "(\<exists>st'. syncMySQLSlowQuery e instance st = Some (Some err, st') \<and>
           history st' =
             history st @ Delete (ResourceID instance) (earliest_of e) #
             concat (map (\<lambda>j. day_events instance (instant (loop_date (loop_start e latest) j))
                               (fetched (instant (loop_date (loop_start e latest) j))))
               [0..<k]) @
             [Fetch (ResourceID instance) (instant (loop_date (loop_start e latest) k))] \<and>
           (\<forall>j<k. distinct (map fst (fetched (instant (loop_date (loop_start e latest) j)))) \<longrightarrow>
              (\<forall>(dbName, slowLog) \<in> set (fetched (instant (loop_date (loop_start e latest) j))).
                 slow_query st'
                   (ResourceID instance, dbName, instant (loop_date (loop_start e latest) j)) =
                   Some slowLog))) \<and>
         ((\<forall>l. latest = Some l \<longrightarrow> fixed_offset (loc l)) \<longrightarrow>
            (\<forall>j. instant (loop_date (loop_start e latest) j) =
                   spec_resume_point e latest + int j * (24 * Hour)) \<and>
            (\<forall>ev \<in> set (concat (map (\<lambda>j. day_events instance
                                   (instant (loop_date (loop_start e latest) j))
                                   (fetched (instant (loop_date (loop_start e latest) j))))
                           [0..<k])).
               event_date ev < instant (loop_date (loop_start e latest) k)))"
proof -
  let ?start = "loop_start e latest"
  let ?day = "\<lambda>j. instant (loop_date ?start j)"
  let ?st' = "st1\<lparr>slow_query := put_days (ResourceID instance) fetched (map ?day [0..<k])
                  (slow_query st1),
               history := history st1 @
                 concat (map (\<lambda>j. day_events instance (?day j) (fetched (?day j))) [0..<k]) @
                 [Fetch (ResourceID instance) (?day k)]\<rparr>"
  have "syncMySQLSlowQuery e instance st =
      mysql_days e driver instance (today_of e) ?start st1"
    using del latest driver enabled by (rule syncMySQLSlowQuery_loop)
  also have "\<dots> = mysql_days e driver instance (today_of e) (loop_date ?start k)
       (st1\<lparr>slow_query := put_days (ResourceID instance) fetched (map ?day [0..<k])
              (slow_query st1),
            history := history st1 @
              concat (map (\<lambda>j. day_events instance (?day j) (fetched (?day j))) [0..<k])\<rparr>)"
    using ok by (rule mysql_days_steps)
  also have "\<dots> = Some (Some err, ?st')"
    by (subst mysql_days_fetch_fails [OF d fail]) simp
  finally have run: "syncMySQLSlowQuery e instance st = Some (Some err, ?st')" .
  have hist: "history ?st' =
      history st @ Delete (ResourceID instance) (earliest_of e) #
      concat (map (\<lambda>j. day_events instance (?day j) (fetched (?day j))) [0..<k]) @
      [Fetch (ResourceID instance) (?day k)]"
    by (simp add: DeleteOutdatedSlowLog_history [OF del])
  have store: "slow_query ?st' (ResourceID instance, dbName, ?day j) = Some slowLog"
    if "j < k" "distinct (map fst (fetched (?day j)))" "(dbName, slowLog) \<in> set (fetched (?day j))"
    for j dbName slowLog
  proof -
    from that(1) have mem: "?day j \<in> set (map ?day [0..<k])" by simp
    have "put_days (ResourceID instance) fetched (map ?day [0..<k]) (slow_query st1)
        (ResourceID instance, dbName, ?day j) = Some slowLog"
      using mem that(2,3)
      by (rule put_days_lookup [where fetched = fetched and d = "?day j"])
    then show ?thesis by simp
  qed
  have days: "?day j = spec_resume_point e latest + int j * (24 * Hour)"
    if "\<forall>l. latest = Some l \<longrightarrow> fixed_offset (loc l)" for j
    using loop_start_fixed [OF that, of e] by (simp add: loop_date_fixed)
  have before: "event_date ev < ?day k"
    if fixed: "\<forall>l. latest = Some l \<longrightarrow> fixed_offset (loc l)"
      and ev: "ev \<in> set (concat (map (\<lambda>j. day_events instance (?day j) (fetched (?day j)))
                 [0..<k]))" for ev
  proof -
    from ev obtain j where j: "j < k" "ev \<in> set (day_events instance (?day j) (fetched (?day j)))"
      by auto
    from j(2) have "event_date ev = ?day j" by (auto simp: day_events_def)
    with j(1) Hour_pos show ?thesis by (simp add: days [OF fixed])
  qed
  from store have store': "\<forall>j<k. distinct (map fst (fetched (?day j))) \<longrightarrow>
      (\<forall>(dbName, slowLog) \<in> set (fetched (?day j)).
         slow_query ?st' (ResourceID instance, dbName, ?day j) = Some slowLog)"
    by blast
  from run hist store' have "\<exists>st'. syncMySQLSlowQuery e instance st = Some (Some err, st') \<and>
      history st' =
        history st @ Delete (ResourceID instance) (earliest_of e) #
        concat (map (\<lambda>j. day_events instance (?day j) (fetched (?day j))) [0..<k]) @
        [Fetch (ResourceID instance) (?day k)] \<and>
      (\<forall>j<k. distinct (map fst (fetched (?day j))) \<longrightarrow>
         (\<forall>(dbName, slowLog) \<in> set (fetched (?day j)).
            slow_query st' (ResourceID instance, dbName, ?day j) = Some slowLog))"
    by (intro exI [of _ ?st'] conjI)
  then show ?thesis using days before by (intro conjI impI allI ballI)
qed

theorem syncMySQLSlowQuery_fetch_failure_witness:
  "\<exists>st'. syncMySQLSlowQuery (mysql_env (Some (utc_date (midnight 95))) (Some (midnight 98)))
          example_instance empty_state = Some (Some (Failure ''fetch''), st') \<and>
     history st' =
       [Delete ''prod'' (midnight 70),
        Fetch ''prod'' (midnight 95),
        Upsert \<lparr> UpsertInstanceID = ''prod'', UpsertDatabaseName = ''db'',
                 LogDate = midnight 95, SlowLog = example_statistics \<rparr>,
        Fetch ''prod'' (midnight 96),
        Upsert \<lparr> UpsertInstanceID = ''prod'', UpsertDatabaseName = ''db'',
                 LogDate = midnight 96, SlowLog = example_statistics \<rparr>,
        Fetch ''prod'' (midnight 97),
        Upsert \<lparr> UpsertInstanceID = ''prod'', UpsertDatabaseName = ''db'',
                 LogDate = midnight 97, SlowLog = example_statistics \<rparr>,
        Fetch ''prod'' (midnight 98)] \<and>
     slow_query st' (''prod'', ''db'', midnight 95) = Some example_statistics \<and>
     slow_query st' (''prod'', ''db'', midnight 96) = Some example_statistics \<and>
     slow_query st' (''prod'', ''db'', midnight 97) = Some example_statistics"
proof -
  let ?latest = "Some (utc_date (midnight 95))"
  let ?e = "mysql_env ?latest (Some (midnight 98))"
  let ?driver = "mysql_driver (Some (midnight 98))"
  let ?fetched = "\<lambda>d::time. [(''db'', example_statistics)]"
  let ?k = "Suc (Suc (Suc 0))"
  have a: "(70::int) \<le> 95" by simp
  note dates = example_loop_date [OF a]
  obtain st1 where del: "DeleteOutdatedSlowLog ?e (ResourceID example_instance) (earliest_of ?e)
      empty_state = (None, st1)"
    by (simp add: DeleteOutdatedSlowLog_def mysql_env_def Let_def)
  have latest: "GetLatestSlowLogDate ?e (slow_query st1) (ResourceID example_instance) =
      Inr ?latest"
    by (simp add: mysql_env_def)
  have driver: "GetAdminDatabaseDriver ?e example_instance None = Inr ?driver"
    by (simp add: mysql_env_def)
  have enabled: "CheckSlowQueryLogEnabled ?driver = None"
    by (simp add: mysql_driver_def)
  have ok: "\<forall>j<?k. instant (loop_date (loop_start ?e ?latest) j) \<le> today_of ?e \<and>
      SyncSlowQuery ?driver (instant (loop_date (loop_start ?e ?latest) j)) =
        Inr (?fetched (instant (loop_date (loop_start ?e ?latest) j))) \<and>
      (\<forall>(dbName, slowLog) \<in> set (?fetched (instant (loop_date (loop_start ?e ?latest) j))).
         UpsertSlowLogFault ?e
           \<lparr> UpsertInstanceID = ResourceID example_instance, UpsertDatabaseName = dbName,
             LogDate = instant (loop_date (loop_start ?e ?latest) j),
             SlowLog = slowLog \<rparr> = None)"
    unfolding dates example_today
    by (simp add: midnight_le midnight_eq mysql_driver_def mysql_env_def)
  have d: "instant (loop_date (loop_start ?e ?latest) ?k) \<le> today_of ?e"
    unfolding dates example_today by (simp add: midnight_le)
  have fail: "SyncSlowQuery ?driver (instant (loop_date (loop_start ?e ?latest) ?k)) =
      Inl (Failure ''fetch'')"
    unfolding dates by (simp add: mysql_driver_def)
  note run = syncMySQLSlowQuery_fetch_failure [OF del latest driver enabled ok d fail,
      THEN conjunct1, unfolded dates example_earliest]
  then obtain st' where st':
    "syncMySQLSlowQuery ?e example_instance empty_state = Some (Some (Failure ''fetch''), st')"
    "history st' =
       history empty_state @ Delete (ResourceID example_instance) (midnight 70) #
       concat (map (\<lambda>j. day_events example_instance (midnight (95 + int j))
                         [(''db'', example_statistics)]) [0..<?k]) @
       [Fetch (ResourceID example_instance) (midnight (95 + int ?k))]"
    "\<forall>j<?k. distinct (map fst [(''db'', example_statistics)]) \<longrightarrow>
       (\<forall>(dbName, slowLog) \<in> set [(''db'', example_statistics)].
          slow_query st' (ResourceID example_instance, dbName, midnight (95 + int j)) =
            Some slowLog)"
    by blast
  have 2: "history st' =
       [Delete ''prod'' (midnight 70),
        Fetch ''prod'' (midnight 95),
        Upsert \<lparr> UpsertInstanceID = ''prod'', UpsertDatabaseName = ''db'',
                 LogDate = midnight 95, SlowLog = example_statistics \<rparr>,
        Fetch ''prod'' (midnight 96),
        Upsert \<lparr> UpsertInstanceID = ''prod'', UpsertDatabaseName = ''db'',
                 LogDate = midnight 96, SlowLog = example_statistics \<rparr>,
        Fetch ''prod'' (midnight 97),
        Upsert \<lparr> UpsertInstanceID = ''prod'', UpsertDatabaseName = ''db'',
                 LogDate = midnight 97, SlowLog = example_statistics \<rparr>,
        Fetch ''prod'' (midnight 98)]"
    using st'(2) by (simp add: day_events_def example_instance_def empty_state_def)
  have 3: "slow_query st' (''prod'', ''db'', midnight (95 + int j)) = Some example_statistics"
    if "j < ?k" for j
    using st'(3) [rule_format, OF that, of "(''db'', example_statistics)"]
    by (simp add: example_instance_def)
  from 3 [of 0] 3 [of "Suc 0"] 3 [of "Suc (Suc 0)"]
  have 4: "slow_query st' (''prod'', ''db'', midnight 95) = Some example_statistics"
    "slow_query st' (''prod'', ''db'', midnight 96) = Some example_statistics"
    "slow_query st' (''prod'', ''db'', midnight 97) = Some example_statistics"
    by simp_all
  from st'(1) 2 4 show ?thesis by blast
qed

section \<open>Properties of the PostgreSQL routine and of the policy check\<close>

lemma getLatestLogTime_first:
  "getLatestLogTime logMap =
     (case snapshot_items logMap of [] \<Rightarrow> 0 | item # items \<Rightarrow> LatestLogTime item)"
proof (induction logMap)
  case Nil
  show ?case by (simp add: snapshot_items_def)
next
  case (Cons entry logMap)
  obtain name log where entry: "entry = (name, log)" by (cases entry)
  have items: "snapshot_items (entry # logMap) = Items log @ snapshot_items logMap"
    by (simp add: snapshot_items_def entry)
  show ?case
  proof (cases "Items log")
    case Nil
    with Cons items entry show ?thesis by simp
  next
    case (Cons item items')
    with items entry show ?thesis by simp
  qed
qed

lemma pg_upsert_databases_history:
  "\<exists>msgs. history (pg_upsert_databases e instance logMap latestLogDate nextLogDate databases st) =
            history st @ map Upsert msgs \<and>
          map upsert_key msgs =
            map (\<lambda>database. (ResourceID instance, DatabaseName database, latestLogDate))
              (filter (in_snapshot logMap) databases)"
proof (induction databases arbitrary: st)
  case Nil
  show ?case by (intro exI [of _ "[]"]) simp
next
  case (Cons database databases)
  show ?case
  proof (cases "map_of logMap (DatabaseName database)")
    case None
    then have "\<not> in_snapshot logMap database" by (simp add: in_snapshot_def)
    with None Cons [of st] show ?thesis by simp
  next
    case (Some statistics)
    let ?u = "\<lparr> UpsertInstanceID = ResourceID instance,
                UpsertDatabaseName = DatabaseName database,
                LogDate = latestLogDate,
                SlowLog = merged_statistics e database latestLogDate nextLogDate statistics st \<rparr>"
    obtain err st' where u: "UpsertSlowLog e ?u st = (err, st')"
      by (cases "UpsertSlowLog e ?u st")
    then have h: "history st' = history st @ [Upsert ?u]"
      by (auto simp: UpsertSlowLog_def Let_def split: option.splits)
    from Cons [of st'] obtain msgs where
      m: "history (pg_upsert_databases e instance logMap latestLogDate nextLogDate databases st') =
            history st' @ map Upsert msgs"
      "map upsert_key msgs =
         map (\<lambda>database. (ResourceID instance, DatabaseName database, latestLogDate))
           (filter (in_snapshot logMap) databases)"
      by blast
    have ins: "in_snapshot logMap database"
      by (simp add: in_snapshot_def Some)
    have k: "upsert_key ?u = (ResourceID instance, DatabaseName database, latestLogDate)"
      by (simp add: upsert_key_def)
    show ?thesis
      using Some u h m ins k
      by (intro exI [of _ "?u # msgs"]) simp
  qed
qed

lemma pg_upsert_databases_mono:
  "set (history st) \<subseteq>
     set (history (pg_upsert_databases e instance logMap latestLogDate nextLogDate databases st))"
  using pg_upsert_databases_history [of e "instance" logMap latestLogDate nextLogDate databases st]
  by auto

lemma merged_statistics_fault:
  "ListSlowQueryFault e (list_message database latestLogDate) \<noteq> None \<Longrightarrow>
     merged_statistics e database latestLogDate (AddDate 0 0 1 latestLogDate) statistics st =
       statistics"
  by (auto simp: merged_statistics_def ListSlowQuery_def list_message_def)

lemma pg_upsert_databases_unmerged:
  assumes "database \<in> set databases"
    and "map_of logMap (DatabaseName database) = Some statistics"
    and "ListSlowQueryFault e (list_message database latestLogDate) \<noteq> None"
  shows "Upsert \<lparr> UpsertInstanceID = ResourceID instance,
                  UpsertDatabaseName = DatabaseName database,
                  LogDate = latestLogDate, SlowLog = statistics \<rparr>
         \<in> set (history (pg_upsert_databases e instance logMap latestLogDate
                  (AddDate 0 0 1 latestLogDate) databases st))"
  using assms(1)
proof (induction databases arbitrary: st)
  case Nil
  then show ?case by simp
next
  case (Cons database' databases)
  let ?next = "AddDate 0 0 1 latestLogDate"
  show ?case
  proof (cases "database = database'")
    case True
    let ?u = "\<lparr> UpsertInstanceID = ResourceID instance,
                UpsertDatabaseName = DatabaseName database,
                LogDate = latestLogDate, SlowLog = statistics \<rparr>"
    obtain err st' where u: "UpsertSlowLog e ?u st = (err, st')"
      by (cases "UpsertSlowLog e ?u st")
    then have "Upsert ?u \<in> set (history st')"
      by (auto simp: UpsertSlowLog_def Let_def split: option.splits)
    then have "Upsert ?u \<in> set (history
        (pg_upsert_databases e instance logMap latestLogDate ?next databases st'))"
      using pg_upsert_databases_mono by blast
    moreover have "merged_statistics e database' latestLogDate ?next statistics st = statistics"
      using merged_statistics_fault [OF assms(3)] True by simp
    ultimately show ?thesis
      using True assms(2) u by simp
  next
    case False
    with Cons.prems have "database \<in> set databases" by simp
    then show ?thesis
      using Cons.IH by (simp split: option.splits prod.splits)
  qed
qed

lemma syncPostgreSQLSlowQuery_reach:
  assumes del: "DeleteOutdatedSlowLog e (ResourceID instance) (earliest_of e) st = (None, st1)"
    and dbs: "ListDatabases e (ResourceID instance) = Inr databases"
    and found: "find_enabled e instance databases = Some enabledDatabase"
    and driver: "GetAdminDatabaseDriver e instance (Some enabledDatabase) = Inr driver"
    and snap: "SyncSlowQuery driver (Now e) = Inr logMap"
  shows "syncPostgreSQLSlowQuery e instance st =
     (None,
      if getLatestLogTime logMap = 0
      then st1\<lparr>history := history st1 @ [Fetch (ResourceID instance) (Now e)]\<rparr>
      else pg_upsert_databases e instance logMap
             (Truncate (24 * Hour) (getLatestLogTime logMap))
             (AddDate 0 0 1 (Truncate (24 * Hour) (getLatestLogTime logMap))) databases
             (st1\<lparr>history := history st1 @ [Fetch (ResourceID instance) (Now e)]\<rparr>))"
  using assms
  by (simp add: syncPostgreSQLSlowQuery_def Let_def fetch_def IsZero_def
      today_of_def [symmetric] earliest_of_def [symmetric])

lemma same_day_latest:
  assumes "items \<noteq> []"
    and "\<forall>item \<in> set items. Truncate (24 * Hour) (LatestLogTime item) = D"
  shows "Truncate (24 * Hour) (LatestLogTime (hd items)) = D \<and>
         Truncate (24 * Hour) (Max (LatestLogTime ` set items)) = D"
proof -
  have "Max (LatestLogTime ` set items) \<in> LatestLogTime ` set items"
    using assms(1) by (intro Max_in) simp_all
  then obtain item where "item \<in> set items" "Max (LatestLogTime ` set items) = LatestLogTime item"
    by auto
  with assms show ?thesis by simp
qed

text \<open>
  Claim C7, as amended. In a run of the PostgreSQL routine that fetches a snapshot (the
  deletion of outdated logs, the list of databases, the probe for an enabled database,
  the driver and the fetch succeed):
  \<^item> the time from which \<open>latestLogDate\<close> is taken is the latest log time of the first
    item that the loops over the snapshot reach, and the zero time when the snapshot has
    no item;
  \<^item> the routine returns no error;
  \<^item> when that time is zero (in particular for a snapshot without items), the calls of
    the run are the deletion and the fetch only, and the store is as the deletion left it;
  \<^item> otherwise the calls after the fetch are upserts only, one for each database that
    the store lists for the instance and that is present in the snapshot, in the order
    of the list, all keyed on \<open>latestLogDate\<close>, that time truncated to the day;
  \<^item> when the times of all items of a non-empty snapshot are of one UTC day,
    \<open>latestLogDate\<close> is that day, which is also the day of the latest time among them.
\<close>

theorem syncPostgreSQLSlowQuery_snapshot:
  assumes del: "DeleteOutdatedSlowLog e (ResourceID instance) (earliest_of e) st = (None, st1)"
    and dbs: "ListDatabases e (ResourceID instance) = Inr databases"
    and found: "find_enabled e instance databases = Some enabledDatabase"
    and driver: "GetAdminDatabaseDriver e instance (Some enabledDatabase) = Inr driver"
    and snap: "SyncSlowQuery driver (Now e) = Inr logMap"
  shows "getLatestLogTime logMap =
           (case snapshot_items logMap of [] \<Rightarrow> 0 | item # items \<Rightarrow> LatestLogTime item) \<and>
         fst (syncPostgreSQLSlowQuery e instance st) = None \<and>
         (getLatestLogTime logMap = 0 \<longrightarrow>
            history (snd (syncPostgreSQLSlowQuery e instance st)) =
              history st @
              [Delete (ResourceID instance) (earliest_of e), Fetch (ResourceID instance) (Now e)] \<and>
            slow_query (snd (syncPostgreSQLSlowQuery e instance st)) = slow_query st1) \<and>
         (getLatestLogTime logMap \<noteq> 0 \<longrightarrow>
            (\<exists>msgs. history (snd (syncPostgreSQLSlowQuery e instance st)) =
               history st @
               [Delete (ResourceID instance) (earliest_of e), Fetch (ResourceID instance) (Now e)] @
               map Upsert msgs \<and>
               map upsert_key msgs =
                 map (\<lambda>database. (ResourceID instance, DatabaseName database,
                        Truncate (24 * Hour) (getLatestLogTime logMap)))
                   (filter (in_snapshot logMap) databases))) \<and>
         (\<forall>D. snapshot_items logMap \<noteq> [] \<and>
              (\<forall>item \<in> set (snapshot_items logMap).
                 Truncate (24 * Hour) (LatestLogTime item) = D) \<longrightarrow>
              Truncate (24 * Hour) (getLatestLogTime logMap) = D \<and>
              Truncate (24 * Hour) (Max (LatestLogTime ` set (snapshot_items logMap))) = D)"
proof -
  note run = syncPostgreSQLSlowQuery_reach [OF assms]
  note h1 = DeleteOutdatedSlowLog_history [OF del]
  have 1: "getLatestLogTime logMap =
      (case snapshot_items logMap of [] \<Rightarrow> 0 | item # items \<Rightarrow> LatestLogTime item)"
    by (rule getLatestLogTime_first)
  have 2: "fst (syncPostgreSQLSlowQuery e instance st) = None"
    by (simp add: run)
  have 3: "history (snd (syncPostgreSQLSlowQuery e instance st)) =
        history st @
        [Delete (ResourceID instance) (earliest_of e), Fetch (ResourceID instance) (Now e)] \<and>
      slow_query (snd (syncPostgreSQLSlowQuery e instance st)) = slow_query st1"
    if "getLatestLogTime logMap = 0"
    using that by (simp add: run h1)
  have 4: "\<exists>msgs. history (snd (syncPostgreSQLSlowQuery e instance st)) =
         history st @
         [Delete (ResourceID instance) (earliest_of e), Fetch (ResourceID instance) (Now e)] @
         map Upsert msgs \<and>
         map upsert_key msgs =
           map (\<lambda>database. (ResourceID instance, DatabaseName database,
                  Truncate (24 * Hour) (getLatestLogTime logMap)))
             (filter (in_snapshot logMap) databases)"
    if "getLatestLogTime logMap \<noteq> 0"
    using that
      pg_upsert_databases_history [of e "instance" logMap
        "Truncate (24 * Hour) (getLatestLogTime logMap)"
        "AddDate 0 0 1 (Truncate (24 * Hour) (getLatestLogTime logMap))" databases
        "st1\<lparr>history := history st1 @ [Fetch (ResourceID instance) (Now e)]\<rparr>"]
    by (simp add: run h1)
  have 5: "Truncate (24 * Hour) (getLatestLogTime logMap) = D \<and>
      Truncate (24 * Hour) (Max (LatestLogTime ` set (snapshot_items logMap))) = D"
    if "snapshot_items logMap \<noteq> []"
      "\<forall>item \<in> set (snapshot_items logMap). Truncate (24 * Hour) (LatestLogTime item) = D"
    for D
  proof -
    from that(1) have "getLatestLogTime logMap = LatestLogTime (hd (snapshot_items logMap))"
      by (cases "snapshot_items logMap") (simp_all add: 1)
    with same_day_latest [OF that] show ?thesis by simp
  qed
  from 1 2 3 4 5 show ?thesis by blast
qed

text \<open>
  Claim C10. In a run of the PostgreSQL routine that reaches the loop over the databases
  (the snapshot has an item with a non-zero time), whatever listings of persisted
  records and whatever upserts fail: the routine returns no error; the loop goes on to
  the remaining databases, so that the calls after the fetch are one upsert for each
  listed database present in the snapshot; and for a database whose persisted records
  could not be listed, the upsert carries the freshly fetched statistics, not merged.
  In the witness both the listing and the upsert fail for the first of two databases:
  the second is still merged with its persisted record and stored.
\<close>

theorem syncPostgreSQLSlowQuery_contained_failures:
  assumes del: "DeleteOutdatedSlowLog e (ResourceID instance) (earliest_of e) st = (None, st1)"
    and dbs: "ListDatabases e (ResourceID instance) = Inr databases"
    and found: "find_enabled e instance databases = Some enabledDatabase"
    and driver: "GetAdminDatabaseDriver e instance (Some enabledDatabase) = Inr driver"
    and snap: "SyncSlowQuery driver (Now e) = Inr logMap"
    and nonzero: "getLatestLogTime logMap \<noteq> 0"
  shows "fst (syncPostgreSQLSlowQuery e instance st) = None \<and>
         (\<exists>msgs. history (snd (syncPostgreSQLSlowQuery e instance st)) =
            history st @
            [Delete (ResourceID instance) (earliest_of e), Fetch (ResourceID instance) (Now e)] @
            map Upsert msgs \<and>
            map upsert_key msgs =
              map (\<lambda>database. (ResourceID instance, DatabaseName database,
                     Truncate (24 * Hour) (getLatestLogTime logMap)))
                (filter (in_snapshot logMap) databases)) \<and>
         (\<forall>database \<in> set databases. \<forall>statistics.
            map_of logMap (DatabaseName database) = Some statistics \<longrightarrow>
            ListSlowQueryFault e
              (list_message database (Truncate (24 * Hour) (getLatestLogTime logMap))) \<noteq> None \<longrightarrow>
            Upsert \<lparr> UpsertInstanceID = ResourceID instance,
                     UpsertDatabaseName = DatabaseName database,
                     LogDate = Truncate (24 * Hour) (getLatestLogTime logMap),
                     SlowLog = statistics \<rparr>
              \<in> set (history (snd (syncPostgreSQLSlowQuery e instance st))))"
proof -
  let ?D = "Truncate (24 * Hour) (getLatestLogTime logMap)"
  let ?st2 = "st1\<lparr>history := history st1 @ [Fetch (ResourceID instance) (Now e)]\<rparr>"
  have run: "syncPostgreSQLSlowQuery e instance st =
      (None, pg_upsert_databases e instance logMap ?D (AddDate 0 0 1 ?D) databases ?st2)"
    using syncPostgreSQLSlowQuery_reach [OF del dbs found driver snap] nonzero by simp
  note h1 = DeleteOutdatedSlowLog_history [OF del]
  have 1: "fst (syncPostgreSQLSlowQuery e instance st) = None"
    by (simp add: run)
  have 2: "\<exists>msgs. history (snd (syncPostgreSQLSlowQuery e instance st)) =
         history st @
         [Delete (ResourceID instance) (earliest_of e), Fetch (ResourceID instance) (Now e)] @
         map Upsert msgs \<and>
         map upsert_key msgs =
           map (\<lambda>database. (ResourceID instance, DatabaseName database, ?D))
             (filter (in_snapshot logMap) databases)"
    using pg_upsert_databases_history [of e "instance" logMap ?D "AddDate 0 0 1 ?D" databases ?st2]
    by (simp add: run h1)
  have 3: "Upsert \<lparr> UpsertInstanceID = ResourceID instance,
                     UpsertDatabaseName = DatabaseName database,
                     LogDate = ?D, SlowLog = statistics \<rparr>
              \<in> set (history (snd (syncPostgreSQLSlowQuery e instance st)))"
    if "database \<in> set databases" "map_of logMap (DatabaseName database) = Some statistics"
      "ListSlowQueryFault e (list_message database ?D) \<noteq> None"
    for database statistics
    using pg_upsert_databases_unmerged [OF that] by (simp add: run)
  from 1 2 3 show ?thesis by blast
qed

text \<open>
  Claim C8. For an instance whose slow query policy is absent or inactive,
  \<open>syncInstanceSlowQuery\<close> returns no error and leaves the state as it was: the store
  is unchanged and no call (no deletion, no fetch, no upsert) is made.
\<close>

theorem syncInstanceSlowQuery_no_policy:
  assumes "GetSlowQueryPolicy e (ResourceID instance) = Inr policy"
    and "policy = None \<or> (\<exists>p. policy = Some p \<and> \<not> Active p)"
  shows "syncInstanceSlowQuery e instance st = Some (None, st)"
  using assms by (auto simp: syncInstanceSlowQuery_def)

lemma Truncate_midnight:
  "0 \<le> r \<Longrightarrow> r < 24 * Hour \<Longrightarrow> Truncate (24 * Hour) (midnight k + r) = midnight k"
  by (simp add: Truncate_def midnight_def Hour_def)

lemma Hour_bounds: "0 \<le> Hour" "Hour < 24 * Hour" "0 \<le> 3 * Hour" "3 * Hour < 24 * Hour"
  "0 \<le> 2 * Hour" "2 * Hour < 24 * Hour"
  "0 \<le> 5 * Hour" "5 * Hour < 24 * Hour" "0 \<le> 7 * Hour" "7 * Hour < 24 * Hour"
  by (simp_all add: Hour_def)

lemma midnight_nonzero: "0 \<le> r \<Longrightarrow> 0 < k \<Longrightarrow> midnight k + r \<noteq> 0"
  by (simp add: midnight_def Hour_def add_nonneg_eq_0_iff)

theorem syncInstanceSlowQuery_no_policy_witness:
  "syncInstanceSlowQuery (no_policy_env None) example_instance empty_state =
     Some (None, empty_state) \<and>
   syncInstanceSlowQuery (no_policy_env (Some \<lparr> Active = False \<rparr>)) example_instance empty_state =
     Some (None, empty_state)"
proof -
  have 1: "GetSlowQueryPolicy (no_policy_env None) (ResourceID example_instance) = Inr None"
    by (simp add: no_policy_env_def)
  have 2: "GetSlowQueryPolicy (no_policy_env (Some \<lparr> Active = False \<rparr>))
      (ResourceID example_instance) = Inr (Some \<lparr> Active = False \<rparr>)"
    by (simp add: no_policy_env_def)
  show ?thesis
    using syncInstanceSlowQuery_no_policy [OF 1, of empty_state]
      syncInstanceSlowQuery_no_policy [OF 2, of empty_state]
    by simp
qed

lemma pg_example_today: "today_of (pg_env databases logMap lf uf rows) = midnight 100"
  by (simp add: today_of_def pg_env_def Truncate_midnight Hour_bounds)

lemma pg_example_earliest: "earliest_of (pg_env databases logMap lf uf rows) = midnight 70"
  by (simp add: earliest_of_def pg_example_today AddDate_def retentionCycle_def midnight_def)

lemma pg_example_reach:
  assumes "databases = pg_database name # others"
  shows "\<exists>st1. DeleteOutdatedSlowLog (pg_env databases logMap lf uf rows) (ResourceID pg_instance)
            (earliest_of (pg_env databases logMap lf uf rows)) empty_state = (None, st1) \<and>
          slow_query st1 = (\<lambda>k. None)"
    and "ListDatabases (pg_env databases logMap lf uf rows) (ResourceID pg_instance) = Inr databases"
    and "find_enabled (pg_env databases logMap lf uf rows) pg_instance databases =
           Some (pg_database name)"
    and "GetAdminDatabaseDriver (pg_env databases logMap lf uf rows) pg_instance
           (Some (pg_database name)) =
           Inr \<lparr> CheckSlowQueryLogEnabled = None, SyncSlowQuery = (\<lambda>t. Inr logMap) \<rparr>"
    and "SyncSlowQuery \<lparr> CheckSlowQueryLogEnabled = None, SyncSlowQuery = (\<lambda>t. Inr logMap) \<rparr>
           (Now (pg_env databases logMap lf uf rows)) = Inr logMap"
  using assms
  by (auto simp: DeleteOutdatedSlowLog_def Let_def pg_env_def empty_state_def check_enabled_def
      pg_database_def fun_eq_iff)

lemma same_day_first: "getLatestLogTime same_day_snapshot = midnight 99 + 3 * Hour"
  by (simp add: same_day_snapshot_def item_at_def)

lemma same_day_items:
  "snapshot_items same_day_snapshot =
     [item_at ''select'' (midnight 99 + 3 * Hour), item_at ''update'' (midnight 99 + 7 * Hour)]"
  by (simp add: same_day_snapshot_def snapshot_items_def)

theorem syncPostgreSQLSlowQuery_snapshot_witness:
  "fst (syncPostgreSQLSlowQuery
          (pg_env [pg_database ''db1'', pg_database ''db2''] same_day_snapshot
             (\<lambda>l. None) (\<lambda>u. None) (\<lambda>l. []))
          pg_instance empty_state) = None \<and>
   Truncate (24 * Hour) (getLatestLogTime same_day_snapshot) = midnight 99 \<and>
   Truncate (24 * Hour) (Max (LatestLogTime ` set (snapshot_items same_day_snapshot))) =
     midnight 99 \<and>
   (\<exists>msgs. history (snd (syncPostgreSQLSlowQuery
          (pg_env [pg_database ''db1'', pg_database ''db2''] same_day_snapshot
             (\<lambda>l. None) (\<lambda>u. None) (\<lambda>l. []))
          pg_instance empty_state)) =
        [Delete ''pg'' (midnight 70), Fetch ''pg'' (midnight 100 + 5 * Hour)] @ map Upsert msgs \<and>
      map upsert_key msgs = [(''pg'', ''db1'', midnight 99), (''pg'', ''db2'', midnight 99)])"
proof -
  let ?dbs = "[pg_database ''db1'', pg_database ''db2'']"
  let ?e = "pg_env ?dbs same_day_snapshot (\<lambda>l. None) (\<lambda>u. None) (\<lambda>l. [])"
  obtain st1 where del: "DeleteOutdatedSlowLog ?e (ResourceID pg_instance) (earliest_of ?e)
      empty_state = (None, st1)"
    using pg_example_reach(1) [OF refl] by blast
  note facts = syncPostgreSQLSlowQuery_snapshot
    [OF del pg_example_reach(2) [OF refl] pg_example_reach(3) [OF refl]
      pg_example_reach(4) [OF refl] pg_example_reach(5) [OF refl]]
  have nz: "getLatestLogTime same_day_snapshot \<noteq> 0"
    by (simp add: same_day_first midnight_nonzero Hour_bounds)
  have day: "Truncate (24 * Hour) (getLatestLogTime same_day_snapshot) = midnight 99"
    by (simp add: same_day_first Truncate_midnight Hour_bounds)
  have same: "snapshot_items same_day_snapshot \<noteq> [] \<and>
      (\<forall>item \<in> set (snapshot_items same_day_snapshot).
         Truncate (24 * Hour) (LatestLogTime item) = midnight 99)"
    by (simp add: same_day_items item_at_def Truncate_midnight Hour_bounds)
  have 1: "fst (syncPostgreSQLSlowQuery ?e pg_instance empty_state) = None"
    using facts by (rule conjunct2 [THEN conjunct1])
  have 4: "\<exists>msgs. history (snd (syncPostgreSQLSlowQuery ?e pg_instance empty_state)) =
        [Delete ''pg'' (midnight 70), Fetch ''pg'' (midnight 100 + 5 * Hour)] @ map Upsert msgs \<and>
      map upsert_key msgs = [(''pg'', ''db1'', midnight 99), (''pg'', ''db2'', midnight 99)]"
  proof -
    note c4 = facts [THEN conjunct2, THEN conjunct2, THEN conjunct2, THEN conjunct1,
        rule_format, OF nz, unfolded day pg_example_earliest]
    have now: "Now ?e = midnight 100 + 5 * Hour"
      by (simp add: pg_env_def)
    have present: "in_snapshot same_day_snapshot (pg_database ''db1'')"
      "in_snapshot same_day_snapshot (pg_database ''db2'')"
      by (simp_all add: in_snapshot_def same_day_snapshot_def pg_database_def)
    have names: "ResourceID pg_instance = ''pg''" "DatabaseName (pg_database ''db1'') = ''db1''"
      "DatabaseName (pg_database ''db2'') = ''db2''" "history empty_state = []"
      by (simp_all add: pg_instance_def pg_database_def empty_state_def)
    from c4 show ?thesis
      by (simp add: now present names)
  qed
  have 5: "Truncate (24 * Hour) (Max (LatestLogTime ` set (snapshot_items same_day_snapshot))) =
      midnight 99"
    using facts [THEN conjunct2, THEN conjunct2, THEN conjunct2, THEN conjunct2, rule_format,
        OF same]
    by (rule conjunct2)
  from 1 day 4 5 show ?thesis by blast
qed

lemma two_day_first: "getLatestLogTime two_day_snapshot = midnight 98 + Hour"
  by (simp add: two_day_snapshot_def item_at_def)

lemma pg_example_run:
  assumes "databases = pg_database name # others"
    and "getLatestLogTime logMap = midnight k + r" and "0 \<le> r" and "r < 24 * Hour" and "0 < k"
  shows "syncPostgreSQLSlowQuery (pg_env databases logMap lf uf rows) pg_instance empty_state =
     (None, pg_upsert_databases (pg_env databases logMap lf uf rows) pg_instance logMap
        (midnight k) (AddDate 0 0 1 (midnight k)) databases
        \<lparr> slow_query = (\<lambda>k. None),
          history = [Delete ''pg'' (midnight 70), Fetch ''pg'' (midnight 100 + 5 * Hour)] \<rparr>)"
proof -
  let ?e = "pg_env databases logMap lf uf rows"
  obtain st1 where del: "DeleteOutdatedSlowLog ?e (ResourceID pg_instance) (earliest_of ?e)
      empty_state = (None, st1)" and store: "slow_query st1 = (\<lambda>k. None)"
    using pg_example_reach(1) [OF assms(1)] by blast
  have h: "history st1 = [Delete ''pg'' (midnight 70)]"
    using DeleteOutdatedSlowLog_history [OF del]
    by (simp add: pg_example_earliest empty_state_def pg_instance_def)
  have st1: "st1 = \<lparr> slow_query = (\<lambda>k. None), history = [Delete ''pg'' (midnight 70)] \<rparr>"
    using store h by (cases st1) simp
  have nz: "getLatestLogTime logMap \<noteq> 0"
    using assms by (simp add: midnight_nonzero)
  have day: "Truncate (24 * Hour) (getLatestLogTime logMap) = midnight k"
    using assms by (simp add: Truncate_midnight)
  have now: "Now ?e = midnight 100 + 5 * Hour" by (simp add: pg_env_def)
  have rid: "ResourceID pg_instance = ''pg''" by (simp add: pg_instance_def)
  show ?thesis
    using syncPostgreSQLSlowQuery_reach [OF del pg_example_reach(2) [OF assms(1)]
        pg_example_reach(3) [OF assms(1)] pg_example_reach(4) [OF assms(1)]
        pg_example_reach(5) [OF assms(1)]] nz
    by (simp add: day st1 now rid)
qed

text \<open>
  Claim C7 as stated fails on a snapshot whose items are of different days, and on a
  database that the store does not list. The snapshot holds, for \<open>db1\<close>, an item of day
  98 followed by an item of day 99, and an item of day 98 for a database \<open>new\<close>; the
  store lists \<open>db1\<close> only. In either order of the two databases \<open>latestLogDate\<close>
  is day 98, and the single upsert is keyed on it, while the latest time among the items
  is of day 99; and \<open>new\<close> receives no upsert.
\<close>

theorem getLatestLogTime_latest_counterexample:
  "history (snd (syncPostgreSQLSlowQuery
      (pg_env [pg_database ''db1''] two_day_snapshot (\<lambda>l. None) (\<lambda>u. None) (\<lambda>l. []))
      pg_instance empty_state)) =
     [Delete ''pg'' (midnight 70), Fetch ''pg'' (midnight 100 + 5 * Hour),
      Upsert \<lparr> UpsertInstanceID = ''pg'', UpsertDatabaseName = ''db1'', LogDate = midnight 98,
               SlowLog = \<lparr> Items = [item_at ''select'' (midnight 98 + Hour),
                                     item_at ''update'' (midnight 99 + Hour)] \<rparr> \<rparr>] \<and>
   Truncate (24 * Hour) (getLatestLogTime two_day_snapshot) = midnight 98 \<and>
   Truncate (24 * Hour) (getLatestLogTime (rev two_day_snapshot)) = midnight 98 \<and>
   Truncate (24 * Hour) (Max (LatestLogTime ` set (snapshot_items two_day_snapshot))) =
     midnight 99 \<and>
   midnight 98 \<noteq> midnight 99 \<and>
   map_of two_day_snapshot ''new'' \<noteq> None"
proof -
  have first: "Truncate (24 * Hour) (getLatestLogTime two_day_snapshot) = midnight 98"
    by (simp add: two_day_first Truncate_midnight Hour_bounds)
  have "getLatestLogTime (rev two_day_snapshot) = midnight 98 + 2 * Hour"
    by (simp add: two_day_snapshot_def item_at_def)
  then have other: "Truncate (24 * Hour) (getLatestLogTime (rev two_day_snapshot)) = midnight 98"
    by (simp add: Truncate_midnight Hour_bounds)
  have run: "history (snd (syncPostgreSQLSlowQuery
      (pg_env [pg_database ''db1''] two_day_snapshot (\<lambda>l. None) (\<lambda>u. None) (\<lambda>l. []))
      pg_instance empty_state)) =
     [Delete ''pg'' (midnight 70), Fetch ''pg'' (midnight 100 + 5 * Hour),
      Upsert \<lparr> UpsertInstanceID = ''pg'', UpsertDatabaseName = ''db1'', LogDate = midnight 98,
               SlowLog = \<lparr> Items = [item_at ''select'' (midnight 98 + Hour),
                                     item_at ''update'' (midnight 99 + Hour)] \<rparr> \<rparr>]"
    by (subst pg_example_run [OF refl two_day_first])
      (simp_all add: Hour_bounds pg_database_def pg_instance_def two_day_snapshot_def
        UpsertSlowLog_def merged_statistics_def ListSlowQuery_def Let_def pg_env_def)
  have "Max (LatestLogTime ` set (snapshot_items two_day_snapshot)) = midnight 99 + Hour"
    by (simp add: snapshot_items_def two_day_snapshot_def item_at_def midnight_def Hour_def)
  then have latest: "Truncate (24 * Hour)
      (Max (LatestLogTime ` set (snapshot_items two_day_snapshot))) = midnight 99"
    by (simp add: Truncate_midnight Hour_bounds)
  have "map_of two_day_snapshot ''new'' \<noteq> None"
    by (simp add: two_day_snapshot_def)
  with run latest first other show ?thesis
    by (simp add: midnight_eq)
qed

theorem syncPostgreSQLSlowQuery_contained_failures_witness:
  "fst (syncPostgreSQLSlowQuery db1_faults_env pg_instance empty_state) = None \<and>
   history (snd (syncPostgreSQLSlowQuery db1_faults_env pg_instance empty_state)) =
     [Delete ''pg'' (midnight 70), Fetch ''pg'' (midnight 100 + 5 * Hour),
      Upsert \<lparr> UpsertInstanceID = ''pg'', UpsertDatabaseName = ''db1'', LogDate = midnight 99,
               SlowLog = \<lparr> Items = [item_at ''select'' (midnight 99 + 3 * Hour)] \<rparr> \<rparr>,
      Upsert \<lparr> UpsertInstanceID = ''pg'', UpsertDatabaseName = ''db2'', LogDate = midnight 99,
               SlowLog = pgMergeSlowQueryLog
                 \<lparr> Items = [item_at ''update'' (midnight 99 + 7 * Hour)] \<rparr> [persisted_row] \<rparr>] \<and>
   slow_query (snd (syncPostgreSQLSlowQuery db1_faults_env pg_instance empty_state))
     (''pg'', ''db1'', midnight 99) = None \<and>
   slow_query (snd (syncPostgreSQLSlowQuery db1_faults_env pg_instance empty_state))
     (''pg'', ''db2'', midnight 99) =
     Some (pgMergeSlowQueryLog
             \<lparr> Items = [item_at ''update'' (midnight 99 + 7 * Hour)] \<rparr> [persisted_row])"
proof -
  let ?dbs = "[pg_database ''db1'', pg_database ''db2'']"
  let ?lf = "\<lambda>l. if ListDatabaseName l = ''db1'' then Some (Failure ''list'') else None"
  let ?uf = "\<lambda>u. if UpsertDatabaseName u = ''db1'' then Some (Failure ''upsert'') else None"
  let ?rows = "\<lambda>l::ListSlowQueryMessage. [persisted_row]"
  let ?e = "pg_env ?dbs same_day_snapshot ?lf ?uf ?rows"
  obtain st1 where del: "DeleteOutdatedSlowLog ?e (ResourceID pg_instance) (earliest_of ?e)
      empty_state = (None, st1)"
    using pg_example_reach(1) [OF refl] by blast
  have nz: "getLatestLogTime same_day_snapshot \<noteq> 0"
    by (simp add: same_day_first midnight_nonzero Hour_bounds)
  note facts = syncPostgreSQLSlowQuery_contained_failures
    [OF del pg_example_reach(2) [OF refl] pg_example_reach(3) [OF refl]
      pg_example_reach(4) [OF refl] pg_example_reach(5) [OF refl] nz]
  have 1: "fst (syncPostgreSQLSlowQuery ?e pg_instance empty_state) = None"
    using facts by (rule conjunct1)
  have run: "syncPostgreSQLSlowQuery ?e pg_instance empty_state =
     (None, pg_upsert_databases ?e pg_instance same_day_snapshot
        (midnight 99) (AddDate 0 0 1 (midnight 99)) ?dbs
        \<lparr> slow_query = (\<lambda>k. None),
          history = [Delete ''pg'' (midnight 70), Fetch ''pg'' (midnight 100 + 5 * Hour)] \<rparr>)"
    by (rule pg_example_run [OF refl same_day_first]) (simp_all add: Hour_bounds)
  have 2: "snd (syncPostgreSQLSlowQuery ?e pg_instance empty_state) =
     \<lparr> slow_query = (\<lambda>k. None)((''pg'', ''db2'', midnight 99) \<mapsto>
          pgMergeSlowQueryLog \<lparr> Items = [item_at ''update'' (midnight 99 + 7 * Hour)] \<rparr>
            [persisted_row]),
       history =
     [Delete ''pg'' (midnight 70), Fetch ''pg'' (midnight 100 + 5 * Hour),
      Upsert \<lparr> UpsertInstanceID = ''pg'', UpsertDatabaseName = ''db1'', LogDate = midnight 99,
               SlowLog = \<lparr> Items = [item_at ''select'' (midnight 99 + 3 * Hour)] \<rparr> \<rparr>,
      Upsert \<lparr> UpsertInstanceID = ''pg'', UpsertDatabaseName = ''db2'', LogDate = midnight 99,
               SlowLog = pgMergeSlowQueryLog
                 \<lparr> Items = [item_at ''update'' (midnight 99 + 7 * Hour)] \<rparr> [persisted_row] \<rparr>] \<rparr>"
    unfolding run
    by (simp add: pg_database_def pg_instance_def same_day_snapshot_def
        UpsertSlowLog_def merged_statistics_def ListSlowQuery_def Let_def pg_env_def)
  from 1 show ?thesis
    unfolding db1_faults_env_def by (simp add: 2)
qed

end
